theory Spec2Isabelle
  imports Complex_Main "HOL-Library.Word"
begin

section \<open>Python values used by the oscilloscope driver\<close>

text \<open>
  The exceptions that the code of \<^verbatim>\<open>oscilloscope.py\<close> can raise by itself. The
  argument of \<open>KeyError\<close> is the missing key, the argument of \<open>AttributeError\<close> the
  message. Failures of the transport (a timeout of the instrument link, an HTTP
  status) come from the collaborating libraries and are not part of this model.
\<close>

datatype error =
    KeyError string
  | IndexError
  | ValueError
  | TypeError
  | AttributeError string

subsection \<open>Dictionaries\<close>

text \<open>
  A Python \<^verbatim>\<open>dict\<close> keeps its keys in insertion order: storing under an existing key
  replaces the value where the key stands, storing under a new key appends. It is modelled
  as an association list that is read through the first binding of a key.
\<close>

fun dict_set :: "'k \<Rightarrow> 'v \<Rightarrow> ('k \<times> 'v) list \<Rightarrow> ('k \<times> 'v) list" where
  "dict_set k v [] = [(k, v)]"
| "dict_set k v (p # ps) = (if fst p = k then (k, v) # ps else p # dict_set k v ps)"

definition dict_keys :: "('k \<times> 'v) list \<Rightarrow> 'k list" where
  "dict_keys d = map fst d"

definition dict_get :: "(string \<times> 'v) list \<Rightarrow> string \<Rightarrow> error + 'v" where
  "dict_get d k = (case map_of d k of None \<Rightarrow> Inl (KeyError k) | Some v \<Rightarrow> Inr v)"

text \<open>\<^verbatim>\<open>d.update(other)\<close>: every key of \<open>other\<close>, in its order, is stored into \<open>d\<close>
  with the value it has in \<open>other\<close>.\<close>

definition dict_update :: "('k \<times> 'v) list \<Rightarrow> ('k \<times> 'v) list \<Rightarrow> ('k \<times> 'v) list" where
  "dict_update d other =
     fold (\<lambda>k acc. case map_of other k of None \<Rightarrow> acc | Some v \<Rightarrow> dict_set k v acc)
       (dict_keys other) d"

subsection \<open>Strings and sequences\<close>

text \<open>
  Indexing a sequence, \<^verbatim>\<open>xs[i]\<close> with a constant index \<open>i \<ge> 0\<close>: out of range it
  raises \<^verbatim>\<open>IndexError\<close>.
\<close>

definition nth_item :: "'a list \<Rightarrow> nat \<Rightarrow> error + 'a" where
  "nth_item xs i = (if i < length xs then Inr (xs ! i) else Inl IndexError)"

text \<open>
  \<^verbatim>\<open>s.split(c)\<close> for a separator of one character: the pieces between the
  separators, empty pieces included; the result is never empty.
\<close>

fun split_on :: "char \<Rightarrow> string \<Rightarrow> string list" where
  "split_on c [] = [[]]"
| "split_on c (x # xs) =
     (if x = c then [] # split_on c xs
      else (case split_on c xs of w # ws \<Rightarrow> (x # w) # ws | [] \<Rightarrow> [[x]]))"

text \<open>
  \<^verbatim>\<open>s.strip()\<close> removes the white space at both ends. Among the characters with
  codes below 256 Python counts as white space the codes 9 to 13, 28 to 32, 133 (next
  line) and 160 (no-break space).
\<close>

definition is_space :: "char \<Rightarrow> bool" where
  "is_space c \<longleftrightarrow>
     (let n = (of_char c :: nat)
      in (9 \<le> n \<and> n \<le> 13) \<or> (28 \<le> n \<and> n \<le> 32) \<or> n = 133 \<or> n = 160)"

definition strip :: "string \<Rightarrow> string" where
  "strip s = rev (dropWhile is_space (rev (dropWhile is_space s)))"

definition LF :: char where
  "LF = CHR 0x0A"

text \<open>
  \<^verbatim>\<open>StringIO.readline()\<close>: the text up to and including the next line feed, or all
  that is left when there is none; at the end of the text the empty string. The stream is
  the text not yet read.
\<close>

fun readline :: "string \<Rightarrow> string \<times> string" where
  "readline [] = ([], [])"
| "readline (c # cs) =
     (if c = LF then ([c], cs) else (case readline cs of (l, r) \<Rightarrow> (c # l, r)))"

subsection \<open>Headers and stored values\<close>

text \<open>
  A header maps field names to strings; the HTTP parser also stores the list of column
  labels under the key \<^verbatim>\<open>label\<close>. A collection stores header dictionaries and sample
  lists through the same \<^verbatim>\<open>__setitem__\<close>, so both are values of one type. The type
  \<open>'f\<close> stands for Python's \<^verbatim>\<open>float\<close>.
\<close>

datatype hval = HStr string | HList "string list"

type_synonym hdict = "(string \<times> hval) list"

datatype 'f pyval = PyDict hdict | PyList "'f list"

section \<open>WaveformCollection\<close>

record 'f WaveformCollection =
  idn :: string
  data :: "(string \<times> 'f pyval) list"
  header :: "'f pyval"

definition wf_init :: "'f WaveformCollection" where
  "wf_init = \<lparr> idn = [], data = [], header = PyDict [] \<rparr>"

definition sources :: "'f WaveformCollection \<Rightarrow> string list" where
  "sources self = dict_keys (data self)"

definition wf_getitem :: "'f WaveformCollection \<Rightarrow> string \<Rightarrow> error + 'f pyval" where
  "wf_getitem self key = dict_get (data self) key"

definition wf_setitem :: "string \<Rightarrow> 'f pyval \<Rightarrow> 'f WaveformCollection \<Rightarrow> 'f WaveformCollection" where
  "wf_setitem key val self =
     (if key = ''header'' then self\<lparr>header := val\<rparr>
      else self\<lparr>data := dict_set key val (data self)\<rparr>)"

definition wf_len :: "'f WaveformCollection \<Rightarrow> nat" where
  "wf_len self = length (dict_keys (data self))"

text \<open>
  \<^verbatim>\<open>self._header.update(other.header())\<close> on the values a header slot can hold. A list
  has no method \<^verbatim>\<open>update\<close> (the \<^verbatim>\<open>AttributeError\<close> carries the name of the
  attribute here, in place of Python's sentence about it); a dictionary updated from a
  list takes each element as a key/value pair, which a number is not, so only the empty
  list passes.
\<close>

fun hdr_update :: "'f pyval \<Rightarrow> 'f pyval \<Rightarrow> error + 'f pyval" where
  "hdr_update (PyDict h) (PyDict h') = Inr (PyDict (dict_update h h'))"
| "hdr_update (PyDict h) (PyList []) = Inr (PyDict h)"
| "hdr_update (PyDict h) (PyList (x # xs)) = Inl TypeError"
| "hdr_update (PyList xs) v = Inl (AttributeError ''update'')"

text \<open>The loop \<^verbatim>\<open>for name in other.sources: self[name] = other[name]\<close>.\<close>

fun add_loop :: "'f WaveformCollection \<Rightarrow> string list \<Rightarrow> 'f WaveformCollection
    \<Rightarrow> error + 'f WaveformCollection" where
  "add_loop other [] self = Inr self"
| "add_loop other (name # names) self =
     (case wf_getitem other name of
        Inl e \<Rightarrow> Inl e
      | Inr v \<Rightarrow> add_loop other names (wf_setitem name v self))"

text \<open>
  \<^verbatim>\<open>__add__\<close> on values: the result is the new content of \<open>self\<close>, which is also the
  object that the method returns.
\<close>

definition wf_add :: "'f WaveformCollection \<Rightarrow> 'f WaveformCollection
    \<Rightarrow> error + 'f WaveformCollection" where
  "wf_add self other =
     (if idn self = idn other then
        (case hdr_update (header self) (header other) of
           Inl e \<Rightarrow> Inl e
         | Inr h \<Rightarrow> add_loop other (sources other) (self\<lparr>header := h\<rparr>))
      else Inl (AttributeError ''Incompatible addition''))"

subsection \<open>The merge on objects\<close>

text \<open>
  Python evaluates \<^verbatim>\<open>a + b\<close> on references: \<^verbatim>\<open>__add__\<close> writes into the object
  that \<open>self\<close> refers to and returns that reference. A store maps references to
  collection objects; \<open>obj_add\<close> runs the statements of \<^verbatim>\<open>__add__\<close> on it, also
  when both operands are the same object.
\<close>

type_synonym ref = nat

type_synonym 'f store = "ref \<Rightarrow> 'f WaveformCollection"

fun obj_add_loop :: "ref \<Rightarrow> ref \<Rightarrow> string list \<Rightarrow> 'f store \<Rightarrow> (error + ref) \<times> 'f store" where
  "obj_add_loop self other [] st = (Inr self, st)"
| "obj_add_loop self other (name # names) st =
     (case wf_getitem (st other) name of
        Inl e \<Rightarrow> (Inl e, st)
      | Inr v \<Rightarrow> obj_add_loop self other names (st(self := wf_setitem name v (st self))))"

definition obj_add :: "ref \<Rightarrow> ref \<Rightarrow> 'f store \<Rightarrow> (error + ref) \<times> 'f store" where
  "obj_add self other st =
     (if idn (st self) = idn (st other) then
        (case hdr_update (header (st self)) (header (st other)) of
           Inl e \<Rightarrow> (Inl e, st)
         | Inr h \<Rightarrow>
             (let st1 = st(self := (st self)\<lparr>header := h\<rparr>)
              in obj_add_loop self other (sources (st1 other)) st1))
      else (Inl (AttributeError ''Incompatible addition''), st))"

section \<open>The HTTP export: \<^verbatim>\<open>parse_response\<close>\<close>

text \<open>
  The loop \<^verbatim>\<open>for _ in range(21)\<close> of \<^verbatim>\<open>parse_response\<close>, with the number of
  iterations left, the header built so far and the stream.
\<close>

fun preamble_loop :: "nat \<Rightarrow> hdict \<Rightarrow> string \<Rightarrow> error + (hdict \<times> string)" where
  "preamble_loop 0 hdr ds = Inr (hdr, ds)"
| "preamble_loop (Suc n) hdr ds =
     (case readline ds of (line, ds') \<Rightarrow>
        (let words = split_on CHR '','' (strip line) in
         case nth_item words 0 of
           Inl e \<Rightarrow> Inl e
         | Inr w0 \<Rightarrow>
             if w0 = ''Label'' then Inr (hdr, ds')
             else if length words = 2 \<and> w0 \<noteq> [] then
               (case nth_item words 1 of
                  Inl e \<Rightarrow> Inl e
                | Inr w1 \<Rightarrow> preamble_loop n (dict_set w0 (HStr w1) hdr) ds')
             else preamble_loop n hdr ds'))"

text \<open>
  The first part of \<^verbatim>\<open>parse_response\<close>, up to the assignment of
  \<^verbatim>\<open>header["label"]\<close>: the header and the stream that is left for the numeric table.
\<close>

definition parse_response_header :: "string \<Rightarrow> error + (hdict \<times> string)" where
  "parse_response_header data_string =
     (case preamble_loop 21 [] data_string of
        Inl e \<Rightarrow> Inl e
      | Inr (hdr, ds) \<Rightarrow>
          (case readline ds of (line, ds') \<Rightarrow>
             Inr (dict_set ''label'' (HList (split_on CHR '','' (strip line))) hdr, ds')))"

section \<open>The instrument-control path\<close>

subsection \<open>Floating-point numbers\<close>

text \<open>
  The driver computes with Python's \<^verbatim>\<open>float\<close>. The model leaves that type and its
  operations open: \<open>'f\<close> is the type of floats, and a record gives the conversion
  \<^verbatim>\<open>float(s)\<close> of a string (\<open>None\<close> where Python raises \<^verbatim>\<open>ValueError\<close>), the
  conversion of an integer, the value of an IEEE bit pattern of 4 or 8 bytes, and
  subtraction, multiplication and addition. What is proved for every such record holds
  for binary64 arithmetic in particular.
\<close>

record 'f float_ops =
  float_of_str :: "string \<Rightarrow> 'f option"
  float_of_int :: "int \<Rightarrow> 'f"
  float_of_bits :: "nat \<Rightarrow> nat \<Rightarrow> 'f"
  fsub :: "'f \<Rightarrow> 'f \<Rightarrow> 'f"
  fmul :: "'f \<Rightarrow> 'f \<Rightarrow> 'f"
  fadd :: "'f \<Rightarrow> 'f \<Rightarrow> 'f"

text \<open>A number as \<^verbatim>\<open>struct\<close> unpacks it: an \<^verbatim>\<open>int\<close> or a \<^verbatim>\<open>float\<close>.\<close>

datatype 'f number = PyInt int | PyFloat 'f

text \<open>The conversion of the left operand in \<^verbatim>\<open>entry - y_offset\<close>, where
  \<^verbatim>\<open>y_offset\<close> is a float.\<close>

definition to_float :: "'f float_ops \<Rightarrow> 'f number \<Rightarrow> 'f" where
  "to_float ops n = (case n of PyInt i \<Rightarrow> float_of_int ops i | PyFloat x \<Rightarrow> x)"

text \<open>\<^verbatim>\<open>((entry - y_offset) * y_mult) + y_zero\<close>\<close>

definition scale :: "'f float_ops \<Rightarrow> 'f \<Rightarrow> 'f \<Rightarrow> 'f \<Rightarrow> 'f \<Rightarrow> 'f" where
  "scale ops y_mult y_offset y_zero entry =
     fadd ops (fmul ops (fsub ops entry y_offset) y_mult) y_zero"

subsection \<open>The instrument\<close>

text \<open>
  The VISA resource \<^verbatim>\<open>self.scope\<close> is a collaborator: an instrument with a state of
  type \<open>'s\<close> that takes commands, answers queries with a line of text, and answers a
  binary query with a block of bytes (the payload that \<^verbatim>\<open>query_binary_values\<close>
  unpacks).
\<close>

record 's scope =
  scope_write :: "string \<Rightarrow> 's \<Rightarrow> 's"
  scope_query :: "string \<Rightarrow> 's \<Rightarrow> string \<times> 's"
  scope_read_block :: "string \<Rightarrow> 's \<Rightarrow> 8 word list \<times> 's"

subsection \<open>Unpacking binary values\<close>

definition FORMATTER_LOOKUP :: "(string \<times> (string \<times> string) list) list" where
  "FORMATTER_LOOKUP =
     [(''1'', [(''RI'', ''b''), (''RP'', ''B'')]),
      (''2'', [(''RI'', ''h''), (''RP'', ''H'')]),
      (''4'', [(''RI'', ''i''), (''RP'', ''I''), (''FP'', ''f'')]),
      (''8'', [(''RI'', ''q''), (''RP'', ''Q''), (''FP'', ''d'')])]"

text \<open>
  The element types of \<^verbatim>\<open>struct\<close> that the table names: the size in bytes and the
  kind of number of a format character.
\<close>

datatype elem_kind = SignedInt | UnsignedInt | IEEEFloat

definition struct_code :: "string \<Rightarrow> (nat \<times> elem_kind) option" where
  "struct_code datatype =
     map_of [(''b'', (1, SignedInt)), (''B'', (1, UnsignedInt)),
             (''h'', (2, SignedInt)), (''H'', (2, UnsignedInt)),
             (''i'', (4, SignedInt)), (''I'', (4, UnsignedInt)),
             (''q'', (8, SignedInt)), (''Q'', (8, UnsignedInt)),
             (''f'', (4, IEEEFloat)), (''d'', (8, IEEEFloat))] datatype"

text \<open>The number that a sequence of bytes spells, most significant byte first.\<close>

definition be_nat :: "8 word list \<Rightarrow> nat" where
  "be_nat bs = foldl (\<lambda>acc b. acc * 256 + unat b) 0 bs"

text \<open>The value of an element whose bytes, most significant first, spell the number \<open>u\<close>.\<close>

definition elem_value :: "'f float_ops \<Rightarrow> nat \<Rightarrow> elem_kind \<Rightarrow> nat \<Rightarrow> 'f number" where
  "elem_value ops width kind u =
     (case kind of
        UnsignedInt \<Rightarrow> PyInt (int u)
      | SignedInt \<Rightarrow> PyInt (if u < 2 ^ (8 * width - 1) then int u else int u - 2 ^ (8 * width))
      | IEEEFloat \<Rightarrow> PyFloat (float_of_bits ops width u))"

definition unpack_elem :: "'f float_ops \<Rightarrow> nat \<Rightarrow> elem_kind \<Rightarrow> bool \<Rightarrow> 8 word list \<Rightarrow> 'f number" where
  "unpack_elem ops width kind is_big_endian bs =
     elem_value ops width kind (be_nat (if is_big_endian then bs else rev bs))"

text \<open>
  The library's unpacking of a block: as many elements as fit, each of the size of the
  format, in the byte order asked for; a format that \<^verbatim>\<open>struct\<close> does not know is an
  error.
\<close>

definition unpack_block :: "'f float_ops \<Rightarrow> string \<Rightarrow> bool \<Rightarrow> 8 word list \<Rightarrow> error + 'f number list" where
  "unpack_block ops datatype is_big_endian block =
     (case struct_code datatype of
        None \<Rightarrow> Inl ValueError
      | Some (width, kind) \<Rightarrow>
          Inr (map (\<lambda>i. unpack_elem ops width kind is_big_endian (take width (drop (i * width) block)))
                 [0 ..< length block div width]))"

definition query_binary_values ::
    "'f float_ops \<Rightarrow> 's scope \<Rightarrow> string \<Rightarrow> string \<Rightarrow> bool \<Rightarrow> 's \<Rightarrow> (error + 'f number list) \<times> 's" where
  "query_binary_values ops sc message datatype is_big_endian st =
     (case scope_read_block sc message st of (block, st') \<Rightarrow>
        (unpack_block ops datatype is_big_endian block, st'))"

subsection \<open>\<^verbatim>\<open>_get_header\<close>\<close>

text \<open>\<^verbatim>\<open>s.replace(old, new, 1)\<close>: the first occurrence of \<open>old\<close> is replaced.\<close>

fun replace_first :: "string \<Rightarrow> string \<Rightarrow> string \<Rightarrow> string" where
  "replace_first old new [] = (if old = [] then new else [])"
| "replace_first old new (c # cs) =
     (if take (length old) (c # cs) = old then new @ drop (length old) (c # cs)
      else c # replace_first old new cs)"

text \<open>The dictionary comprehension
  \<^verbatim>\<open>{x.split(" ")[0]: x.split(" ")[1] for x in ...}\<close>, entry by entry.\<close>

fun header_pairs :: "string list \<Rightarrow> hdict \<Rightarrow> error + hdict" where
  "header_pairs [] acc = Inr acc"
| "header_pairs (x # xs) acc =
     (case nth_item (split_on CHR '' '' x) 0 of
        Inl e \<Rightarrow> Inl e
      | Inr k \<Rightarrow>
          (case nth_item (split_on CHR '' '' x) 1 of
             Inl e \<Rightarrow> Inl e
           | Inr v \<Rightarrow> header_pairs xs (dict_set k (HStr v) acc)))"

definition get_header :: "'s scope \<Rightarrow> string \<Rightarrow> 's \<Rightarrow> (error + hdict) \<times> 's" where
  "get_header sc source st =
     (let st1 = scope_write sc (''data:source '' @ source) st;
          st2 = scope_write sc ''verbose ON;header ON'' st1
      in case scope_query sc ''wfmoutpre?'' st2 of (result_string, st3) \<Rightarrow>
        (let st4 = scope_write sc ''verbose OFF;header OFF'' st3;
             result_string' = replace_first '':WFMOUTPRE:'' [] result_string
         in (header_pairs (split_on CHR '';'' result_string') [], st4)))"

subsection \<open>\<^verbatim>\<open>_get_data_visa\<close>\<close>

text \<open>\<^verbatim>\<open>str(n)\<close> of an integer.\<close>

function str_nat :: "nat \<Rightarrow> string" where
  "str_nat n = (if n < 10 then [char_of (48 + n)] else str_nat (n div 10) @ [char_of (48 + n mod 10)])"
  by pat_completeness auto
termination
  by (relation "measure id") auto

definition str_int :: "int \<Rightarrow> string" where
  "str_int i = (if i < 0 then CHR ''-'' # str_nat (nat (- i)) else str_nat (nat i))"

text \<open>\<^verbatim>\<open>float(header[key])\<close>\<close>

definition header_float :: "'f float_ops \<Rightarrow> hdict \<Rightarrow> string \<Rightarrow> error + 'f" where
  "header_float ops hdr key =
     (case dict_get hdr key of
        Inl e \<Rightarrow> Inl e
      | Inr (HStr s) \<Rightarrow> (case float_of_str ops s of None \<Rightarrow> Inl ValueError | Some x \<Rightarrow> Inr x)
      | Inr (HList l) \<Rightarrow> Inl TypeError)"

text \<open>The list comprehension of the ASCII branch: the first token that is no number
  raises.\<close>

fun ascii_values :: "'f float_ops \<Rightarrow> 'f \<Rightarrow> 'f \<Rightarrow> 'f \<Rightarrow> string list \<Rightarrow> error + 'f list" where
  "ascii_values ops y_mult y_offset y_zero [] = Inr []"
| "ascii_values ops y_mult y_offset y_zero (entry # entries) =
     (case float_of_str ops entry of
        None \<Rightarrow> Inl ValueError
      | Some x \<Rightarrow>
          (case ascii_values ops y_mult y_offset y_zero entries of
             Inl e \<Rightarrow> Inl e
           | Inr ys \<Rightarrow> Inr (scale ops y_mult y_offset y_zero x # ys)))"

text \<open>\<^verbatim>\<open>FORMATTER_LOOKUP[header["BYT_NR"]][header["BN_FMT"]]\<close>, in the order in which
  Python evaluates the four subscripts; a list is no dictionary key.\<close>

definition format_string_of :: "hdict \<Rightarrow> error + string" where
  "format_string_of hdr =
     (case dict_get hdr ''BYT_NR'' of
        Inl e \<Rightarrow> Inl e
      | Inr (HList l) \<Rightarrow> Inl TypeError
      | Inr (HStr byt_nr) \<Rightarrow>
          (case dict_get FORMATTER_LOOKUP byt_nr of
             Inl e \<Rightarrow> Inl e
           | Inr formats \<Rightarrow>
               (case dict_get hdr ''BN_FMT'' of
                  Inl e \<Rightarrow> Inl e
                | Inr (HList l) \<Rightarrow> Inl TypeError
                | Inr (HStr bn_fmt) \<Rightarrow> dict_get formats bn_fmt)))"

text \<open>
  The body of the loop from \<^verbatim>\<open>y_mult = float(header["YMULT"])\<close> to the end of the
  two decoding branches: the value of \<^verbatim>\<open>ret_val\<close>, or the exception.
\<close>

definition decode_channel :: "'f float_ops \<Rightarrow> 's scope \<Rightarrow> hdict \<Rightarrow> 's \<Rightarrow> (error + 'f list) \<times> 's" where
  "decode_channel ops sc hdr st =
     (case header_float ops hdr ''YMULT'' of
        Inl e \<Rightarrow> (Inl e, st)
      | Inr y_mult \<Rightarrow>
     (case header_float ops hdr ''YOFF'' of
        Inl e \<Rightarrow> (Inl e, st)
      | Inr y_offset \<Rightarrow>
     (case header_float ops hdr ''YZERO'' of
        Inl e \<Rightarrow> (Inl e, st)
      | Inr y_zero \<Rightarrow>
     (case dict_get hdr ''ENCDG'' of
        Inl e \<Rightarrow> (Inl e, st)
      | Inr encdg \<Rightarrow>
          if encdg = HStr ''ASCII'' then
            (case scope_query sc ''curve?'' st of (read_string, st') \<Rightarrow>
               (ascii_values ops y_mult y_offset y_zero (split_on CHR '','' read_string), st'))
          else if encdg = HStr ''BINARY'' then
            (case format_string_of hdr of
               Inl e \<Rightarrow> (Inl e, st)
             | Inr format_string \<Rightarrow>
                 (case dict_get hdr ''BYT_OR'' of
                    Inl e \<Rightarrow> (Inl e, st)
                  | Inr byt_or \<Rightarrow>
                      (let is_big_endian = (byt_or = HStr ''MSB'') in
                       case query_binary_values ops sc ''curv?'' format_string is_big_endian st of
                         (Inl e, st') \<Rightarrow> (Inl e, st')
                       | (Inr ret_val, st') \<Rightarrow>
                           (Inr (map (\<lambda>entry. scale ops y_mult y_offset y_zero (to_float ops entry))
                                   ret_val), st'))))
          else (Inr [], st)))))"

text \<open>
  What one pass through the loop of the generator does: it yields a triple, returns (which
  ends the generator), or raises.
\<close>

datatype 'f gen_step =
    Yield string "'f list" hdict
  | Return "'f list" hdict
  | Raise error

definition visa_source ::
    "'f float_ops \<Rightarrow> 's scope \<Rightarrow> int option \<Rightarrow> int option \<Rightarrow> string \<Rightarrow> 's \<Rightarrow> 'f gen_step \<times> 's" where
  "visa_source ops sc lower_bound upper_bound source st =
     (let st1 = scope_write sc (''data:source '' @ source) st;
          st2 = (case lower_bound of
                   None \<Rightarrow> scope_write sc ''data:start 1'' st1
                 | Some lb \<Rightarrow> scope_write sc (''data:start '' @ str_int lb) st1)
      in case scope_query sc ''horizontal:recordlength?'' st2 of (length_str, st3) \<Rightarrow>
        (let st4 = (case upper_bound of
                      None \<Rightarrow> scope_write sc (''data:stop '' @ length_str) st3
                    | Some ub \<Rightarrow> scope_write sc (''data:stop '' @ str_int ub) st3)
         in case get_header sc source st4 of
              (Inl e, st5) \<Rightarrow> (Raise e, st5)
            | (Inr hdr, st5) \<Rightarrow>
                (case scope_query sc (''select:'' @ source @ ''?'') st5 of (answer, st6) \<Rightarrow>
                   (case nth_item answer 0 of
                      Inl e \<Rightarrow> (Raise e, st6)
                    | Inr c \<Rightarrow>
                        if c = CHR ''0'' then (Return [] hdr, st6)
                        else (case decode_channel ops sc hdr st6 of
                                (Inl e, st7) \<Rightarrow> (Raise e, st7)
                              | (Inr ret_val, st7) \<Rightarrow> (Yield source ret_val hdr, st7))))))"

text \<open>
  The generator \<^verbatim>\<open>_get_data_visa\<close>: the triples it yields, in order, and how it ends
  (exhausted after the last source, by a \<^verbatim>\<open>return\<close>, or by an exception).
\<close>

datatype 'f gen_end =
    Exhausted
  | Returned "'f list" hdict
  | Raised error

fun get_data_visa_gen ::
    "'f float_ops \<Rightarrow> 's scope \<Rightarrow> int option \<Rightarrow> int option \<Rightarrow> string list \<Rightarrow> 's
     \<Rightarrow> ((string \<times> 'f list \<times> hdict) list \<times> 'f gen_end) \<times> 's" where
  "get_data_visa_gen ops sc lower_bound upper_bound [] st = (([], Exhausted), st)"
| "get_data_visa_gen ops sc lower_bound upper_bound (source # srcs) st =
     (case visa_source ops sc lower_bound upper_bound source st of
        (Raise e, st') \<Rightarrow> (([], Raised e), st')
      | (Return ret_val hdr, st') \<Rightarrow> (([], Returned ret_val hdr), st')
      | (Yield name ret_val hdr, st') \<Rightarrow>
          (case get_data_visa_gen ops sc lower_bound upper_bound srcs st' of
             ((items, ending), st'') \<Rightarrow> (((name, ret_val, hdr) # items, ending), st'')))"

subsection \<open>\<^verbatim>\<open>get_data_visa\<close>\<close>

text \<open>The body of the \<^verbatim>\<open>for\<close> loop, for one triple of the generator.\<close>

definition store_item :: "string \<times> 'f list \<times> hdict \<Rightarrow> 'f WaveformCollection \<Rightarrow> 'f WaveformCollection" where
  "store_item item wfc =
     (case item of (ch_name, ch_data, ch_header) \<Rightarrow>
        wf_setitem ''header'' (PyDict ch_header) (wf_setitem ch_name (PyList ch_data) wfc))"

text \<open>
  The loop consumes the generator triple by triple; since storing a triple does not touch
  the instrument, running the generator first gives the same collection. An exception of
  the generator leaves \<^verbatim>\<open>get_data_visa\<close> without a result.
\<close>

definition get_data_visa ::
    "'f float_ops \<Rightarrow> 's scope \<Rightarrow> string list \<Rightarrow> 's \<Rightarrow> (error + 'f WaveformCollection) \<times> 's" where
  "get_data_visa ops sc channels st =
     (case scope_query sc ''*IDN?'' st of (answer, st1) \<Rightarrow>
        (let wfc = wf_init\<lparr>idn := answer\<rparr> in
         if channels \<noteq> [] then
           (case get_data_visa_gen ops sc None None channels st1 of
              ((items, Raised e), st2) \<Rightarrow> (Inl e, st2)
            | ((items, ending), st2) \<Rightarrow> (Inr (fold store_item items wfc), st2))
         else (Inr wfc, st1)))"

section \<open>Notions used in the statements\<close>

text \<open>The loop that both \<open>dict_update\<close> and \<open>add_loop\<close> run, over any list of keys.\<close>

definition store_keys :: "('k \<times> 'v) list \<Rightarrow> 'k list \<Rightarrow> ('k \<times> 'v) list \<Rightarrow> ('k \<times> 'v) list" where
  "store_keys other ks d =
     fold (\<lambda>k acc. case map_of other k of None \<Rightarrow> acc | Some v \<Rightarrow> dict_set k v acc) ks d"

text \<open>
  A collection of the data model: its header slot holds a mapping, and its channel
  dictionary is one that \<^verbatim>\<open>__setitem__\<close> can build: the keys are distinct and
  \<^verbatim>\<open>header\<close> is none of them.
\<close>

definition well_formed :: "'f WaveformCollection \<Rightarrow> bool" where
  "well_formed w \<longleftrightarrow>
     (case header w of PyDict h \<Rightarrow> True | PyList xs \<Rightarrow> False)
     \<and> distinct (sources w) \<and> ''header'' \<notin> set (sources w)"

text \<open>The entry of the format table for a byte width and a format code, if there is one.\<close>

definition lookup_format :: "string \<Rightarrow> string \<Rightarrow> string option" where
  "lookup_format byt_nr bn_fmt =
     (case map_of FORMATTER_LOOKUP byt_nr of None \<Rightarrow> None | Some formats \<Rightarrow> map_of formats bn_fmt)"

text \<open>The size in bytes that a byte width of the table stands for, and the kind of number
  of a format code.\<close>

definition table_width :: "string \<Rightarrow> nat" where
  "table_width byt_nr =
     (if byt_nr = ''1'' then 1 else if byt_nr = ''2'' then 2 else if byt_nr = ''4'' then 4 else 8)"

definition table_kind :: "string \<Rightarrow> elem_kind" where
  "table_kind bn_fmt =
     (if bn_fmt = ''RI'' then SignedInt else if bn_fmt = ''RP'' then UnsignedInt else IEEEFloat)"

text \<open>The content of a collection: its header entries and its datasets by channel name.\<close>

definition header_map :: "'f WaveformCollection \<Rightarrow> string \<rightharpoonup> hval" where
  "header_map w = (case header w of PyDict h \<Rightarrow> map_of h | PyList xs \<Rightarrow> Map.empty)"

definition channel_map :: "'f WaveformCollection \<Rightarrow> string \<rightharpoonup> 'f pyval" where
  "channel_map w = map_of (data w)"

subsection \<open>Lines of the HTTP export\<close>

text \<open>
  The lines of a response body as successive calls of \<open>readline\<close> deliver them, and
  the stream after them.
\<close>

fun read_lines :: "nat \<Rightarrow> string \<Rightarrow> string list \<times> string" where
  "read_lines 0 ds = ([], ds)"
| "read_lines (Suc n) ds =
     (case readline ds of (l, ds') \<Rightarrow>
        (case read_lines n ds' of (ls, r) \<Rightarrow> (l # ls, r)))"

definition line_fields :: "string \<Rightarrow> string list" where
  "line_fields line = split_on CHR '','' (strip line)"

definition is_sentinel :: "string \<Rightarrow> bool" where
  "is_sentinel line \<longleftrightarrow> take 1 (line_fields line) = [''Label'']"

text \<open>What one preamble line does to the header: a line of two fields with a non-empty
  first field stores the second field under the first, any other line nothing.\<close>

definition header_entry :: "string \<Rightarrow> hdict \<Rightarrow> hdict" where
  "header_entry line hdr =
     (case line_fields line of
        [k, v] \<Rightarrow> if k = [] then hdr else dict_set k (HStr v) hdr
      | _ \<Rightarrow> hdr)"

text \<open>The lines before the sentinel among the first 21, the number of lines that the
  preamble takes from the stream (the sentinel is one of them), and the fields of the
  line that follows.\<close>

definition preamble_lines :: "string \<Rightarrow> string list" where
  "preamble_lines s = takeWhile (\<lambda>l. \<not> is_sentinel l) (fst (read_lines 21 s))"

definition lines_consumed :: "string \<Rightarrow> nat" where
  "lines_consumed s = min 21 (Suc (length (preamble_lines s)))"

definition label_row :: "string \<Rightarrow> string list" where
  "label_row s = line_fields (fst (readline (snd (read_lines (lines_consumed s) s))))"

definition text_of_lines :: "string list \<Rightarrow> string" where
  "text_of_lines ls = concat (map (\<lambda>l. l @ [LF]) ls)"

section \<open>Sample inputs\<close>

text \<open>
  An export whose first line has an empty first field, and a usual one. In both the label
  row names two columns and a table of two rows of two floats follows, which
  \<^verbatim>\<open>parse_response\<close> reads into the two channels after the header stage.
\<close>

definition export_empty_key :: string where
  "export_empty_key = text_of_lines
     ['',5'', ''Label,x'', ''TIME,CH1'', ''0.0,1.5'', ''0.1,2.5'']"

definition export_ch1 :: string where
  "export_ch1 = text_of_lines
     [''Model,MDO3024'', [], ''Label,CH1'', ''TIME,CH1'', ''0.0,1.5'', ''0.1,2.5'']"

subsection \<open>An exact float interface\<close>

text \<open>
  For the evaluation of examples: finite floats as the rational numbers they are, all
  infinities and NaNs as one value that every operation propagates. The operations are
  exact, without rounding; they agree with binary64 arithmetic wherever every operand and
  result is representable, as in the examples below. The conversion of a string reads
  decimal literals (sign, digits, fraction, exponent, white space around), not the other
  spellings that Python accepts.
\<close>

datatype xfloat = Finite rat | NonFinite

definition xf_lift :: "(rat \<Rightarrow> rat \<Rightarrow> rat) \<Rightarrow> xfloat \<Rightarrow> xfloat \<Rightarrow> xfloat" where
  "xf_lift f a b = (case (a, b) of (Finite x, Finite y) \<Rightarrow> Finite (f x y) | _ \<Rightarrow> NonFinite)"

definition ieee_value :: "nat \<Rightarrow> nat \<Rightarrow> nat \<Rightarrow> xfloat" where
  "ieee_value exp_bits frac_bits u =
     (let frac = u mod 2 ^ frac_bits;
          e = (u div 2 ^ frac_bits) mod 2 ^ exp_bits;
          negative = odd (u div 2 ^ (frac_bits + exp_bits));
          m = (if e = 0 then frac else 2 ^ frac_bits + frac);
          x = int (if e = 0 then 1 else e) - (2 ^ (exp_bits - 1) - 1) - int frac_bits;
          v = (if 0 \<le> x then of_nat m * 2 ^ nat x else of_nat m / 2 ^ nat (- x))
      in if e = 2 ^ exp_bits - 1 then NonFinite
         else Finite (if negative then - v else v))"

definition digit_of :: "char \<Rightarrow> nat option" where
  "digit_of c = (let n = (of_char c :: nat) in if 48 \<le> n \<and> n \<le> 57 then Some (n - 48) else None)"

fun nat_of_digits :: "string \<Rightarrow> nat \<Rightarrow> nat option" where
  "nat_of_digits [] acc = Some acc"
| "nat_of_digits (c # cs) acc =
     (case digit_of c of None \<Rightarrow> None | Some d \<Rightarrow> nat_of_digits cs (10 * acc + d))"

definition parse_nat :: "string \<Rightarrow> nat option" where
  "parse_nat s = (if s = [] then None else nat_of_digits s 0)"

definition parse_sign :: "string \<Rightarrow> bool \<times> string" where
  "parse_sign s =
     (case s of
        [] \<Rightarrow> (False, [])
      | c # r \<Rightarrow> if c = CHR ''-'' then (True, r) else if c = CHR ''+'' then (False, r) else (False, s))"

definition parse_mantissa :: "string \<Rightarrow> rat option" where
  "parse_mantissa m =
     (case split_on CHR ''.'' m of
        [i] \<Rightarrow> map_option of_nat (parse_nat i)
      | [i, f] \<Rightarrow>
          if i = [] \<and> f = [] then None
          else (case (nat_of_digits i 0, nat_of_digits f 0) of
                  (Some a, Some b) \<Rightarrow> Some (of_nat a + of_nat b / 10 ^ length f)
                | _ \<Rightarrow> None)
      | _ \<Rightarrow> None)"

definition parse_exponent :: "string \<Rightarrow> int option" where
  "parse_exponent x =
     (case parse_sign x of (negative, ds) \<Rightarrow>
        map_option (\<lambda>n. if negative then - int n else int n) (parse_nat ds))"

definition xf_of_str :: "string \<Rightarrow> xfloat option" where
  "xf_of_str s =
     (case parse_sign (strip s) of (negative, body) \<Rightarrow>
        (case split_on CHR ''e'' (map (\<lambda>c. if c = CHR ''E'' then CHR ''e'' else c) body) of
           [m] \<Rightarrow> map_option (\<lambda>v. Finite (if negative then - v else v)) (parse_mantissa m)
         | [m, x] \<Rightarrow>
             (case (parse_mantissa m, parse_exponent x) of
                (Some v, Some k) \<Rightarrow>
                  Some (Finite ((if negative then - v else v)
                                * (if 0 \<le> k then 10 ^ nat k else 1 / 10 ^ nat (- k))))
              | _ \<Rightarrow> None)
         | _ \<Rightarrow> None))"

definition exact_ops :: "xfloat float_ops" where
  "exact_ops = \<lparr>
     float_of_str = xf_of_str,
     float_of_int = (\<lambda>i. Finite (of_int i)),
     float_of_bits = (\<lambda>width u. if width = 4 then ieee_value 8 23 u else ieee_value 11 52 u),
     fsub = xf_lift (\<lambda>x y. x - y),
     fmul = xf_lift (\<lambda>x y. x * y),
     fadd = xf_lift (\<lambda>x y. x + y) \<rparr>"

subsection \<open>A simulated instrument\<close>

text \<open>
  An instrument with a fixed answer per channel: the state is the name of the selected
  data source.
\<close>

record channel_sim =
  sim_select :: string
  sim_preamble :: string
  sim_curve :: string
  sim_block :: "8 word list"

definition bench :: "string \<Rightarrow> (string \<times> channel_sim) list \<Rightarrow> string scope" where
  "bench idn_str chans = \<lparr>
     scope_write = (\<lambda>cmd st. if take 12 cmd = ''data:source '' then drop 12 cmd else st),
     scope_query = (\<lambda>q st.
       (if q = ''*IDN?'' then idn_str
        else if q = ''horizontal:recordlength?'' then ''1000''
        else (case map_of chans st of
                None \<Rightarrow> []
              | Some ch \<Rightarrow>
                  if q = ''wfmoutpre?'' then sim_preamble ch
                  else if q = ''curve?'' then sim_curve ch
                  else if q = ''select:'' @ st @ ''?'' then sim_select ch
                  else []), st)),
     scope_read_block = (\<lambda>q st. (case map_of chans st of None \<Rightarrow> [] | Some ch \<Rightarrow> sim_block ch, st)) \<rparr>"

definition ch_ascii :: channel_sim where
  "ch_ascii = \<lparr> sim_select = ''1'',
     sim_preamble = '':WFMOUTPRE:YMULT 2.0;YOFF 10;YZERO 1.0;ENCDG ASCII'',
     sim_curve = ''10,20,30'', sim_block = [] \<rparr>"

definition ch_binary :: channel_sim where
  "ch_binary = \<lparr> sim_select = ''1'',
     sim_preamble = '':WFMOUTPRE:BYT_NR 2;BN_FMT RI;BYT_OR MSB;ENCDG BINARY;YMULT 1;YOFF 0;YZERO 0'',
     sim_curve = [], sim_block = [0x00, 0x01, 0x00, 0x02] \<rparr>"

definition ch_ascii_unscaled :: channel_sim where
  "ch_ascii_unscaled = \<lparr> sim_select = ''1'',
     sim_preamble = '':WFMOUTPRE:YMULT 1;YOFF 0;YZERO 0;ENCDG ASCII'',
     sim_curve = ''5,6'', sim_block = [] \<rparr>"

definition ch_off :: channel_sim where
  "ch_off = ch_ascii\<lparr> sim_select := ''0'' \<rparr>"

definition lab_bench :: "string scope" where
  "lab_bench = bench ''TEKTRONIX,MDO3024''
     [(''CH1'', ch_ascii), (''CH2'', ch_binary), (''CH3'', ch_off), (''CH4'', ch_ascii_unscaled),
      (''header'', ch_ascii)]"

text \<open>The headers of the two decoding scenarios.\<close>

definition ascii_header :: hdict where
  "ascii_header =
     [(''YMULT'', HStr ''2.0''), (''YOFF'', HStr ''10''), (''YZERO'', HStr ''1.0''),
      (''ENCDG'', HStr ''ASCII'')]"

definition binary_header :: hdict where
  "binary_header =
     [(''BYT_NR'', HStr ''2''), (''BN_FMT'', HStr ''RI''), (''BYT_OR'', HStr ''MSB''),
      (''ENCDG'', HStr ''BINARY''), (''YMULT'', HStr ''1''), (''YOFF'', HStr ''0''),
      (''YZERO'', HStr ''0'')]"

text \<open>The binary scenario with the other byte order, and headers that name no entry of
  the format table.\<close>

definition binary_header_lsb :: hdict where
  "binary_header_lsb = dict_set ''BYT_OR'' (HStr ''LSB'') binary_header"

definition header_1_FP :: hdict where
  "header_1_FP = dict_set ''BN_FMT'' (HStr ''FP'') (dict_set ''BYT_NR'' (HStr ''1'') binary_header)"

definition header_3_RI :: hdict where
  "header_3_RI = dict_set ''BYT_NR'' (HStr ''3'') binary_header"

text \<open>The header that the simulated instrument reports for the channel \<^verbatim>\<open>CH4\<close>.\<close>

definition unscaled_header :: hdict where
  "unscaled_header =
     [(''YMULT'', HStr ''1''), (''YOFF'', HStr ''0''), (''YZERO'', HStr ''0''),
      (''ENCDG'', HStr ''ASCII'')]"

subsection \<open>Sample collections\<close>

text \<open>
  Collections as \<^verbatim>\<open>parse_response\<close> leaves them for one channel each (the identity
  string stays empty on the HTTP path), a second acquisition of the first channel, and a
  collection read from an identified instrument.
\<close>

definition coll_ch1 :: "rat WaveformCollection" where
  "coll_ch1 = \<lparr> idn = [], data = [(''CH1'', PyList [1, 2])],
     header = PyDict [(''Model'', HStr ''MDO3024''), (''label'', HList [''CH1''])] \<rparr>"

definition coll_ch2 :: "rat WaveformCollection" where
  "coll_ch2 = \<lparr> idn = [], data = [(''CH2'', PyList [5, 6])],
     header = PyDict [(''Model'', HStr ''MDO3024''), (''label'', HList [''CH2''])] \<rparr>"

definition coll_ch1_later :: "rat WaveformCollection" where
  "coll_ch1_later = \<lparr> idn = [], data = [(''CH1'', PyList [3, 4])],
     header = PyDict [(''Model'', HStr ''MDO3024''), (''label'', HList [''CH1''])] \<rparr>"

definition coll_visa :: "rat WaveformCollection" where
  "coll_visa = \<lparr> idn = ''TEKTRONIX,MDO3024'', data = [(''CH2'', PyList [5, 6])],
     header = PyDict [(''ENCDG'', HStr ''ASCII'')] \<rparr>"

definition coll_visa_ch1 :: "rat WaveformCollection" where
  "coll_visa_ch1 = \<lparr> idn = ''TEKTRONIX,MDO3024'', data = [(''CH1'', PyList [1, 2])],
     header = PyDict [(''ENCDG'', HStr ''ASCII''), (''YMULT'', HStr ''2.0'')] \<rparr>"

definition two_objects :: "rat store" where
  "two_objects = (\<lambda>r. wf_init)(0 := coll_ch1, 1 := coll_ch2)"

section \<open>Properties of the dictionary operations\<close>

lemma map_of_dict_set: "map_of (dict_set k v d) = (map_of d)(k \<mapsto> v)"
  by (induction d) (auto simp: fun_eq_iff)

lemma dict_keys_dict_set:
  "dict_keys (dict_set k v d) = (if k \<in> set (dict_keys d) then dict_keys d else dict_keys d @ [k])"
  by (induction d) (auto simp: dict_keys_def)

lemma dict_set_same: "map_of d k = Some v \<Longrightarrow> dict_set k v d = d"
  by (induction d) (auto split: if_splits)

lemma set_dict_keys_dict_set: "set (dict_keys (dict_set k v d)) = insert k (set (dict_keys d))"
  by (auto simp: dict_keys_dict_set)

lemma distinct_dict_keys_dict_set:
  "distinct (dict_keys d) \<Longrightarrow> distinct (dict_keys (dict_set k v d))"
  by (simp add: dict_keys_dict_set)

lemma store_keys_Nil: "store_keys other [] d = d"
  by (simp add: store_keys_def)

lemma store_keys_Cons:
  "store_keys other (k # ks) d =
     store_keys other ks (case map_of other k of None \<Rightarrow> d | Some v \<Rightarrow> dict_set k v d)"
  by (simp add: store_keys_def)

lemma dict_update_store_keys: "dict_update d other = store_keys other (dict_keys other) d"
  by (simp add: dict_update_def store_keys_def)

lemma map_of_store_keys:
  "map_of (store_keys other ks d) = map_of d ++ (map_of other |` set ks)"
proof (induction ks arbitrary: d)
  case Nil
  show ?case by (simp add: store_keys_Nil)
next
  case (Cons k ks)
  show ?case
  proof (cases "map_of other k")
    case None
    then show ?thesis
      by (auto simp: store_keys_Cons Cons.IH fun_eq_iff map_add_def restrict_map_def
               split: option.splits)
  next
    case (Some v)
    then show ?thesis
      by (auto simp: store_keys_Cons Cons.IH map_of_dict_set fun_eq_iff map_add_def
               restrict_map_def split: option.splits)
  qed
qed

lemma set_keys_store_keys:
  "set ks \<subseteq> set (dict_keys other) \<Longrightarrow>
   set (dict_keys (store_keys other ks d)) = set (dict_keys d) \<union> set ks"
proof (induction ks arbitrary: d)
  case Nil
  show ?case by (simp add: store_keys_Nil)
next
  case (Cons k ks)
  from Cons.prems have "k \<in> fst ` set other" by (simp add: dict_keys_def)
  then obtain v where v: "map_of other k = Some v"
    by (metis domD dom_map_of_conv_image_fst)
  from Cons.prems have "set ks \<subseteq> set (dict_keys other)" by simp
  then show ?case
    by (simp add: store_keys_Cons v Cons.IH set_dict_keys_dict_set)
qed

lemma distinct_store_keys:
  "distinct (dict_keys d) \<Longrightarrow> distinct (dict_keys (store_keys other ks d))"
proof (induction ks arbitrary: d)
  case Nil
  then show ?case by (simp add: store_keys_Nil)
next
  case (Cons k ks)
  then show ?case
    by (cases "map_of other k") (simp_all add: store_keys_Cons distinct_dict_keys_dict_set)
qed

lemma store_keys_self:
  "set ks \<subseteq> set (dict_keys d) \<Longrightarrow> store_keys d ks d = d"
proof (induction ks)
  case Nil
  show ?case by (simp add: store_keys_Nil)
next
  case (Cons k ks)
  from Cons.prems have "k \<in> fst ` set d" by (simp add: dict_keys_def)
  then obtain v where v: "map_of d k = Some v"
    by (metis domD dom_map_of_conv_image_fst)
  from Cons show ?case
    by (simp add: store_keys_Cons v dict_set_same)
qed

lemma map_of_dict_update: "map_of (dict_update d other) = map_of d ++ map_of other"
proof -
  have "map_of other |` set (dict_keys other) = map_of other"
    by (auto simp: fun_eq_iff restrict_map_def dict_keys_def map_of_eq_None_iff[symmetric])
  then show ?thesis
    by (simp add: dict_update_store_keys map_of_store_keys)
qed

lemma dict_update_self: "dict_update d d = d"
  by (simp add: dict_update_store_keys store_keys_self)

section \<open>Properties of the merge\<close>

lemma add_loop_store_keys:
  "set names \<subseteq> set (sources other) \<Longrightarrow> ''header'' \<notin> set names \<Longrightarrow>
   add_loop other names self = Inr (self\<lparr>data := store_keys (data other) names (data self)\<rparr>)"
proof (induction names arbitrary: self)
  case Nil
  show ?case by (simp add: store_keys_Nil)
next
  case (Cons n names)
  from Cons.prems have "n \<in> fst ` set (data other)" by (simp add: sources_def dict_keys_def)
  then obtain v where v: "map_of (data other) n = Some v"
    by (metis domD dom_map_of_conv_image_fst)
  from Cons.prems have n: "n \<noteq> ''header''" by auto
  from Cons.prems have "set names \<subseteq> set (sources other)" "''header'' \<notin> set names" by auto
  from Cons.IH[OF this] show ?case
    by (simp add: wf_getitem_def dict_get_def v wf_setitem_def n store_keys_Cons)
qed

lemma wf_add_merged:
  assumes "well_formed a" "well_formed b" "idn a = idn b"
    and "header a = PyDict ha" "header b = PyDict hb"
  shows "wf_add a b = Inr (a\<lparr>data := dict_update (data a) (data b),
                              header := PyDict (dict_update ha hb)\<rparr>)"
proof -
  from assms(2) have "''header'' \<notin> set (sources b)" by (simp add: well_formed_def)
  then have "add_loop b (sources b) (a\<lparr>header := PyDict (dict_update ha hb)\<rparr>) =
      Inr (a\<lparr>header := PyDict (dict_update ha hb),
             data := store_keys (data b) (sources b) (data a)\<rparr>)"
    by (simp add: add_loop_store_keys)
  then show ?thesis
    using assms(3-5) by (simp add: wf_add_def dict_update_store_keys sources_def)
qed

lemma well_formed_header: "well_formed w \<Longrightarrow> \<exists>h. header w = PyDict h"
  by (cases "header w") (simp_all add: well_formed_def)

lemma wf_add_well_formed:
  assumes "well_formed a" "well_formed b" "wf_add a b = Inr c"
  shows "well_formed c \<and> idn c = idn a"
proof -
  from assms(3) have i: "idn a = idn b" by (auto simp: wf_add_def split: if_splits)
  obtain ha hb where h: "header a = PyDict ha" "header b = PyDict hb"
    using assms(1,2) well_formed_header by blast
  have c: "c = a\<lparr>data := dict_update (data a) (data b), header := PyDict (dict_update ha hb)\<rparr>"
    using wf_add_merged[OF assms(1,2) i h] assms(3) by simp
  have "set (dict_keys (dict_update (data a) (data b))) = set (sources a) \<union> set (sources b)"
    by (simp add: dict_update_store_keys set_keys_store_keys sources_def)
  moreover have "distinct (dict_keys (dict_update (data a) (data b)))"
    using assms(1) by (simp add: dict_update_store_keys distinct_store_keys well_formed_def sources_def)
  ultimately show ?thesis
    using assms(1,2) by (simp add: c well_formed_def sources_def)
qed

lemma keys_store_keys:
  "distinct ks \<Longrightarrow> set ks \<subseteq> set (dict_keys other) \<Longrightarrow>
   dict_keys (store_keys other ks d) = dict_keys d @ filter (\<lambda>k. k \<notin> set (dict_keys d)) ks"
proof (induction ks arbitrary: d)
  case Nil
  show ?case by (simp add: store_keys_Nil)
next
  case (Cons k ks)
  from Cons.prems have "k \<in> fst ` set other" by (simp add: dict_keys_def)
  then obtain v where v: "map_of other k = Some v"
    by (metis domD dom_map_of_conv_image_fst)
  from Cons.prems have ks: "distinct ks" "set ks \<subseteq> set (dict_keys other)" "k \<notin> set ks"
    by auto
  have "filter (\<lambda>x. x \<noteq> k \<and> x \<notin> set (dict_keys d)) ks = filter (\<lambda>x. x \<notin> set (dict_keys d)) ks"
    using ks(3) by (intro filter_cong) auto
  then show ?case
    by (simp add: store_keys_Cons v Cons.IH[OF ks(1,2)] dict_keys_dict_set)
qed

lemma map_add_agree_commute:
  assumes "\<forall>k \<in> dom m \<inter> dom n. m k = n k"
  shows "m ++ n = n ++ m"
proof (rule ext)
  fix k
  show "(m ++ n) k = (n ++ m) k"
  proof (cases "m k")
    case None
    then show ?thesis by (simp add: map_add_def split: option.splits)
  next
    case (Some x)
    show ?thesis
    proof (cases "n k")
      case None
      with Some show ?thesis by (simp add: map_add_def)
    next
      case (Some y)
      with \<open>m k = Some x\<close> assms have "m k = n k" by blast
      with Some show ?thesis by (simp add: map_add_def)
    qed
  qed
qed

lemma header_map_PyDict: "header w = PyDict h \<Longrightarrow> header_map w = map_of h"
  by (simp add: header_map_def)

lemma wf_add_content:
  assumes "well_formed a" "well_formed b" "idn a = idn b"
  shows "\<exists>c. wf_add a b = Inr c \<and> well_formed c \<and> idn c = idn a
           \<and> header_map c = header_map a ++ header_map b
           \<and> channel_map c = channel_map a ++ channel_map b
           \<and> sources c = sources a @ filter (\<lambda>n. n \<notin> set (sources a)) (sources b)"
proof -
  obtain ha hb where h: "header a = PyDict ha" "header b = PyDict hb"
    using assms(1,2) well_formed_header by blast
  let ?c = "a\<lparr>data := dict_update (data a) (data b), header := PyDict (dict_update ha hb)\<rparr>"
  have c: "wf_add a b = Inr ?c"
    by (rule wf_add_merged[OF assms h])
  have "distinct (dict_keys (data b))"
    using assms(2) by (simp add: well_formed_def sources_def)
  then have "sources ?c = sources a @ filter (\<lambda>n. n \<notin> set (sources a)) (sources b)"
    by (simp add: sources_def dict_update_store_keys keys_store_keys)
  moreover have "header_map ?c = header_map a ++ header_map b"
    by (simp add: header_map_def h map_of_dict_update)
  moreover have "channel_map ?c = channel_map a ++ channel_map b"
    by (simp add: channel_map_def map_of_dict_update)
  moreover have "well_formed ?c \<and> idn ?c = idn a"
    by (rule wf_add_well_formed[OF assms(1,2) c])
  ultimately show ?thesis using c by blast
qed

text \<open>
  C4: two collections merge exactly when their identity strings are equal, two empty
  ones included; when the strings differ, \<^verbatim>\<open>__add__\<close> raises its
  \<^verbatim>\<open>AttributeError("Incompatible addition")\<close>, the error that the specification calls
  IncompatibleMergeError.
\<close>

theorem merge_succeeds_iff_same_idn:
  assumes "well_formed a" and "well_formed b"
  shows "((\<exists>c. wf_add a b = Inr c) \<longleftrightarrow> idn a = idn b)
       \<and> (idn a \<noteq> idn b \<longrightarrow> wf_add a b = Inl (AttributeError ''Incompatible addition''))"
proof -
  have "idn a = idn b \<Longrightarrow> \<exists>c. wf_add a b = Inr c"
    using wf_add_content[OF assms] by blast
  moreover have "idn a \<noteq> idn b \<Longrightarrow> wf_add a b = Inl (AttributeError ''Incompatible addition'')"
    by (simp add: wf_add_def)
  moreover have "idn a \<noteq> idn b \<Longrightarrow> \<not> (\<exists>c. wf_add a b = Inr c)"
    by (simp add: wf_add_def)
  ultimately show ?thesis by blast
qed

theorem merge_succeeds_iff_same_idn_witness:
  "well_formed coll_ch1 \<and> well_formed coll_ch2 \<and> well_formed coll_visa
   \<and> idn coll_ch1 = [] \<and> idn coll_ch2 = []
   \<and> (\<exists>c. wf_add coll_ch1 coll_ch2 = Inr c)
   \<and> idn coll_ch1 \<noteq> idn coll_visa
   \<and> wf_add coll_ch1 coll_visa = Inl (AttributeError ''Incompatible addition'')"
proof -
  have w: "well_formed coll_ch1" "well_formed coll_ch2" "well_formed coll_visa"
    by (simp_all add: well_formed_def coll_ch1_def coll_ch2_def coll_visa_def sources_def dict_keys_def)
  have i: "idn coll_ch1 = []" "idn coll_ch2 = []" "idn coll_ch1 \<noteq> idn coll_visa"
    by (simp_all add: coll_ch1_def coll_ch2_def coll_visa_def)
  show ?thesis
    using merge_succeeds_iff_same_idn[OF w(1) w(2)] merge_succeeds_iff_same_idn[OF w(1) w(3)] w i
    by simp
qed

text \<open>
  C5: when the identity strings are equal, the header of the merged collection is the
  union of the two headers and its channel map the union of the two channel maps, the
  right-hand operand winning wherever both have the key (\<open>++\<close> on maps prefers its right
  argument). The channel names of the result are those of the left operand followed by
  the new ones of the right operand, so collections holding \<^verbatim>\<open>CH1\<close> and \<^verbatim>\<open>CH2\<close>
  merge into one whose sources are \<^verbatim>\<open>["CH1", "CH2"]\<close>.
\<close>

theorem merge_is_right_biased_union:
  assumes "well_formed a" and "well_formed b" and "idn a = idn b"
  shows "\<exists>c. wf_add a b = Inr c
           \<and> header_map c = header_map a ++ header_map b
           \<and> channel_map c = channel_map a ++ channel_map b
           \<and> sources c = sources a @ filter (\<lambda>n. n \<notin> set (sources a)) (sources b)
           \<and> (sources a = [''CH1''] \<and> sources b = [''CH2''] \<longrightarrow> sources c = [''CH1'', ''CH2''])"
proof -
  obtain c where c: "wf_add a b = Inr c" "header_map c = header_map a ++ header_map b"
      "channel_map c = channel_map a ++ channel_map b"
      "sources c = sources a @ filter (\<lambda>n. n \<notin> set (sources a)) (sources b)"
    using wf_add_content[OF assms] by blast
  from c(4) have "sources a = [''CH1''] \<and> sources b = [''CH2''] \<longrightarrow> sources c = [''CH1'', ''CH2'']"
    by simp
  with c show ?thesis by blast
qed

theorem merge_is_right_biased_union_witness:
  "well_formed coll_ch1 \<and> well_formed coll_ch2 \<and> idn coll_ch1 = idn coll_ch2
   \<and> idn coll_ch1 = []
   \<and> sources coll_ch1 = [''CH1''] \<and> sources coll_ch2 = [''CH2'']
   \<and> (\<exists>c. wf_add coll_ch1 coll_ch2 = Inr c
          \<and> sources c = [''CH1'', ''CH2'']
          \<and> channel_map c ''CH1'' = Some (PyList [1, 2])
          \<and> channel_map c ''CH2'' = Some (PyList [5, 6])
          \<and> header_map c ''label'' = Some (HList [''CH2'']))"
proof -
  have w: "well_formed coll_ch1" "well_formed coll_ch2"
    by (simp_all add: well_formed_def coll_ch1_def coll_ch2_def sources_def dict_keys_def)
  have i: "idn coll_ch1 = idn coll_ch2" "idn coll_ch1 = []"
    by (simp_all add: coll_ch1_def coll_ch2_def)
  have s: "sources coll_ch1 = [''CH1'']" "sources coll_ch2 = [''CH2'']"
    by (simp_all add: coll_ch1_def coll_ch2_def sources_def dict_keys_def)
  have m: "(channel_map coll_ch1 ++ channel_map coll_ch2) ''CH1'' = Some (PyList [1, 2])"
      "(channel_map coll_ch1 ++ channel_map coll_ch2) ''CH2'' = Some (PyList [5, 6])"
      "(header_map coll_ch1 ++ header_map coll_ch2) ''label'' = Some (HList [''CH2''])"
    by (simp_all add: channel_map_def header_map_def coll_ch1_def coll_ch2_def map_add_def)
  obtain c where c: "wf_add coll_ch1 coll_ch2 = Inr c"
      "header_map c = header_map coll_ch1 ++ header_map coll_ch2"
      "channel_map c = channel_map coll_ch1 ++ channel_map coll_ch2"
      "sources coll_ch1 = [''CH1''] \<and> sources coll_ch2 = [''CH2''] \<longrightarrow> sources c = [''CH1'', ''CH2'']"
    using merge_is_right_biased_union[OF w i(1)] by blast
  from c(4) s have "sources c = [''CH1'', ''CH2'']" by blast
  with c(1-3) m w i s show ?thesis by simp
qed

text \<open>
  C6, as the code has it: merging is associative in content, and it is commutative in
  content for two collections that agree on every channel name and every header key
  they share (in particular when they share none). Where they disagree the right-hand
  operand wins, so the order of the operands shows in the result.
\<close>

theorem merge_assoc_and_comm_on_agreement:
  assumes "well_formed a" and "well_formed b" and "well_formed c"
    and "idn a = idn b" and "idn b = idn c"
  shows "(\<exists>ab l bc r. wf_add a b = Inr ab \<and> wf_add ab c = Inr l
            \<and> wf_add b c = Inr bc \<and> wf_add a bc = Inr r
            \<and> channel_map l = channel_map r \<and> header_map l = header_map r)
       \<and> ((\<forall>k \<in> dom (channel_map a) \<inter> dom (channel_map b). channel_map a k = channel_map b k)
            \<and> (\<forall>k \<in> dom (header_map a) \<inter> dom (header_map b). header_map a k = header_map b k)
          \<longrightarrow> (\<exists>x y. wf_add a b = Inr x \<and> wf_add b a = Inr y
                 \<and> channel_map x = channel_map y \<and> header_map x = header_map y))"
proof -
  obtain ab where ab: "wf_add a b = Inr ab" "well_formed ab" "idn ab = idn a"
      "header_map ab = header_map a ++ header_map b"
      "channel_map ab = channel_map a ++ channel_map b"
    using wf_add_content[OF assms(1,2,4)] by blast
  obtain bc where bc: "wf_add b c = Inr bc" "well_formed bc" "idn bc = idn b"
      "header_map bc = header_map b ++ header_map c"
      "channel_map bc = channel_map b ++ channel_map c"
    using wf_add_content[OF assms(2,3,5)] by blast
  have "idn ab = idn c" using ab(3) assms(4,5) by simp
  from wf_add_content[OF ab(2) assms(3) this]
  obtain l where l: "wf_add ab c = Inr l"
      "header_map l = header_map ab ++ header_map c"
      "channel_map l = channel_map ab ++ channel_map c"
    by blast
  have "idn a = idn bc" using bc(3) assms(4) by simp
  from wf_add_content[OF assms(1) bc(2) this]
  obtain r where r: "wf_add a bc = Inr r"
      "header_map r = header_map a ++ header_map bc"
      "channel_map r = channel_map a ++ channel_map bc"
    by blast
  have "channel_map l = channel_map r" "header_map l = header_map r"
    by (simp_all add: l r ab bc)
  with ab(1) l(1) bc(1) r(1) have assoc: "\<exists>ab l bc r. wf_add a b = Inr ab \<and> wf_add ab c = Inr l
            \<and> wf_add b c = Inr bc \<and> wf_add a bc = Inr r
            \<and> channel_map l = channel_map r \<and> header_map l = header_map r"
    by blast
  have comm: "\<exists>x y. wf_add a b = Inr x \<and> wf_add b a = Inr y
                 \<and> channel_map x = channel_map y \<and> header_map x = header_map y"
    if agree: "\<forall>k \<in> dom (channel_map a) \<inter> dom (channel_map b). channel_map a k = channel_map b k"
       "\<forall>k \<in> dom (header_map a) \<inter> dom (header_map b). header_map a k = header_map b k"
  proof -
    have "idn b = idn a" using assms(4) by simp
    from wf_add_content[OF assms(2,1) this]
    obtain ba where ba: "wf_add b a = Inr ba"
        "header_map ba = header_map b ++ header_map a"
        "channel_map ba = channel_map b ++ channel_map a"
      by blast
    have "channel_map ab = channel_map ba"
      using map_add_agree_commute[OF agree(1)] by (simp add: ab ba)
    moreover have "header_map ab = header_map ba"
      using map_add_agree_commute[OF agree(2)] by (simp add: ab ba)
    ultimately show ?thesis using ab(1) ba(1) by blast
  qed
  from assoc comm show ?thesis by blast
qed

theorem merge_assoc_and_comm_on_agreement_witness:
  "well_formed coll_visa_ch1 \<and> well_formed coll_visa
   \<and> idn coll_visa_ch1 = idn coll_visa
   \<and> dom (channel_map coll_visa_ch1) \<inter> dom (channel_map coll_visa) = {}
   \<and> dom (header_map coll_visa_ch1) \<inter> dom (header_map coll_visa) = {''ENCDG''}
   \<and> header_map coll_visa_ch1 ''ENCDG'' = header_map coll_visa ''ENCDG''
   \<and> (\<exists>ab l bc r. wf_add coll_visa_ch1 coll_visa = Inr ab \<and> wf_add ab coll_visa_ch1 = Inr l
          \<and> wf_add coll_visa coll_visa_ch1 = Inr bc \<and> wf_add coll_visa_ch1 bc = Inr r
          \<and> channel_map l = channel_map r \<and> header_map l = header_map r)
   \<and> (\<exists>x y. wf_add coll_visa_ch1 coll_visa = Inr x \<and> wf_add coll_visa coll_visa_ch1 = Inr y
          \<and> channel_map x = channel_map y \<and> header_map x = header_map y)"
proof -
  have w: "well_formed coll_visa_ch1" "well_formed coll_visa"
    by (simp_all add: well_formed_def coll_visa_ch1_def coll_visa_def sources_def dict_keys_def)
  have i: "idn coll_visa_ch1 = idn coll_visa" "idn coll_visa = idn coll_visa_ch1"
    by (simp_all add: coll_visa_ch1_def coll_visa_def)
  have c: "\<forall>k \<in> dom (channel_map coll_visa_ch1) \<inter> dom (channel_map coll_visa).
         channel_map coll_visa_ch1 k = channel_map coll_visa k"
    by (simp add: channel_map_def coll_visa_ch1_def coll_visa_def)
  have h: "\<forall>k \<in> dom (header_map coll_visa_ch1) \<inter> dom (header_map coll_visa).
         header_map coll_visa_ch1 k = header_map coll_visa k"
    by (simp add: header_map_def coll_visa_ch1_def coll_visa_def)
  have d: "dom (channel_map coll_visa_ch1) \<inter> dom (channel_map coll_visa) = {}"
      "dom (header_map coll_visa_ch1) \<inter> dom (header_map coll_visa) = {''ENCDG''}"
      "header_map coll_visa_ch1 ''ENCDG'' = header_map coll_visa ''ENCDG''"
    by (simp_all add: channel_map_def header_map_def coll_visa_ch1_def coll_visa_def)
  show ?thesis
    using merge_assoc_and_comm_on_agreement[OF w(1) w(2) w(1) i] w i(1) c h d by blast
qed

text \<open>
  The claim C6 as stated fails where two collections hold the same channel name with
  different datasets: merged one way the channel keeps the samples of the later
  acquisition, merged the other way those of the earlier one.
\<close>

theorem merge_commutative_counterexample:
  "well_formed coll_ch1 \<and> well_formed coll_ch1_later \<and> idn coll_ch1 = idn coll_ch1_later
   \<and> wf_add coll_ch1 coll_ch1_later = Inr coll_ch1_later
   \<and> wf_add coll_ch1_later coll_ch1 = Inr coll_ch1
   \<and> channel_map coll_ch1_later ''CH1'' = Some (PyList [3, 4])
   \<and> channel_map coll_ch1 ''CH1'' = Some (PyList [1, 2])
   \<and> channel_map coll_ch1_later \<noteq> channel_map coll_ch1"
proof -
  have a: "wf_add coll_ch1 coll_ch1_later = Inr coll_ch1_later"
    by (simp add: wf_add_def coll_ch1_def coll_ch1_later_def dict_update_def dict_keys_def
        sources_def wf_getitem_def dict_get_def wf_setitem_def)
  have b: "wf_add coll_ch1_later coll_ch1 = Inr coll_ch1"
    by (simp add: wf_add_def coll_ch1_def coll_ch1_later_def dict_update_def dict_keys_def
        sources_def wf_getitem_def dict_get_def wf_setitem_def)
  have c: "channel_map coll_ch1_later ''CH1'' = Some (PyList [3, 4])"
      "channel_map coll_ch1 ''CH1'' = Some (PyList [1, 2])"
    by (simp_all add: channel_map_def coll_ch1_def coll_ch1_later_def)
  then have "channel_map coll_ch1_later ''CH1'' \<noteq> channel_map coll_ch1 ''CH1''" by simp
  then have d: "channel_map coll_ch1_later \<noteq> channel_map coll_ch1" by metis
  have w: "well_formed coll_ch1" "well_formed coll_ch1_later" "idn coll_ch1 = idn coll_ch1_later"
    by (simp_all add: well_formed_def coll_ch1_def coll_ch1_later_def sources_def dict_keys_def)
  from a b c d w show ?thesis by simp
qed

section \<open>The merge on objects\<close>

lemma obj_add_loop_distinct:
  "self \<noteq> other \<Longrightarrow> add_loop (st other) names (st self) = Inr m \<Longrightarrow>
   obj_add_loop self other names st = (Inr self, st(self := m))"
proof (induction names arbitrary: st)
  case Nil
  then show ?case by auto
next
  case (Cons n names)
  from Cons.prems(2) obtain v where v: "wf_getitem (st other) n = Inr v"
    by (auto split: sum.splits)
  let ?st = "st(self := wf_setitem n v (st self))"
  from Cons.prems v have "add_loop (?st other) names (?st self) = Inr m" by simp
  from Cons.IH[OF Cons.prems(1) this]
  have "obj_add_loop self other names ?st = (Inr self, ?st(self := m))" .
  moreover have "?st(self := m) = st(self := m)" by (rule fun_upd_upd)
  moreover have "obj_add_loop self other (n # names) st = obj_add_loop self other names ?st"
    by (simp only: obj_add_loop.simps v sum.case)
  ultimately show ?case by (simp only:)
qed

lemma obj_add_loop_same:
  "set names \<subseteq> set (sources (st self)) \<Longrightarrow> ''header'' \<notin> set names \<Longrightarrow>
   obj_add_loop self self names st = (Inr self, st)"
proof (induction names)
  case Nil
  show ?case by simp
next
  case (Cons n names)
  from Cons.prems have "n \<in> fst ` set (data (st self))" by (simp add: sources_def dict_keys_def)
  then obtain v where v: "map_of (data (st self)) n = Some v"
    by (metis domD dom_map_of_conv_image_fst)
  from Cons.prems have n: "n \<noteq> ''header''" by auto
  have "wf_setitem n v (st self) = st self"
    by (simp add: wf_setitem_def n dict_set_same[OF v])
  with Cons show ?case
    by (simp add: wf_getitem_def dict_get_def v)
qed

text \<open>
  C10: on objects with equal identity strings, \<^verbatim>\<open>a + b\<close> returns the reference
  \<open>a\<close> itself; the object at \<open>a\<close> now holds the merged content (its header has gained
  the entries of \<open>b\<close>, its channel map the datasets of \<open>b\<close>), every other object of
  the store is as before, and so is the object at \<open>b\<close>.
\<close>

theorem add_mutates_left_operand_only:
  assumes "well_formed (st a)" and "well_formed (st b)" and "idn (st a) = idn (st b)"
  shows "\<exists>m. obj_add a b st = (Inr a, st(a := m))
           \<and> wf_add (st a) (st b) = Inr m
           \<and> header_map m = header_map (st a) ++ header_map (st b)
           \<and> channel_map m = channel_map (st a) ++ channel_map (st b)
           \<and> (st(a := m)) b = st b
           \<and> (\<forall>r. r \<noteq> a \<longrightarrow> (st(a := m)) r = st r)"
proof -
  obtain ha hb where h: "header (st a) = PyDict ha" "header (st b) = PyDict hb"
    using assms(1,2) well_formed_header by blast
  let ?m = "(st a)\<lparr>data := dict_update (data (st a)) (data (st b)),
                     header := PyDict (dict_update ha hb)\<rparr>"
  have m: "wf_add (st a) (st b) = Inr ?m"
    by (rule wf_add_merged[OF assms h])
  have hm: "header_map ?m = header_map (st a) ++ header_map (st b)"
    by (simp add: header_map_def h map_of_dict_update)
  have cm: "channel_map ?m = channel_map (st a) ++ channel_map (st b)"
    by (simp add: channel_map_def map_of_dict_update)
  define st1 where "st1 = st(a := (st a)\<lparr>header := PyDict (dict_update ha hb)\<rparr>)"
  have o: "obj_add a b st = obj_add_loop a b (sources (st1 b)) st1"
    using assms(3) h by (simp add: obj_add_def Let_def st1_def)
  show ?thesis
  proof (cases "a = b")
    case True
    with h have hh: "hb = ha" by simp
    have "(st a)\<lparr>header := header (st a)\<rparr> = st a" by simp
    then have "(st a)\<lparr>header := PyDict (dict_update ha hb)\<rparr> = st a"
      by (simp only: h hh dict_update_self)
    then have s: "st1 = st"
      by (simp only: st1_def fun_upd_triv)
    have "obj_add_loop a a (sources (st a)) st = (Inr a, st)"
      using assms(1) by (intro obj_add_loop_same) (simp_all add: well_formed_def)
    moreover have "obj_add a b st = obj_add_loop a b (sources (st b)) st"
      using o by (simp only: s)
    ultimately have 1: "obj_add a b st = (Inr a, st)"
      using True by simp
    have "(st a)\<lparr>data := data (st a), header := header (st a)\<rparr> = st a" by simp
    then have "?m = st a"
      using True by (simp only: h hh dict_update_self)
    with m hm cm 1 True show ?thesis
      by (intro exI[of _ "st a"]) simp
  next
    case False
    have b1: "st1 b = st b" using False by (simp add: st1_def)
    have a1: "st1 a = (st a)\<lparr>header := PyDict (dict_update ha hb)\<rparr>" by (simp add: st1_def)
    have "''header'' \<notin> set (sources (st b))"
      using assms(2) by (simp add: well_formed_def)
    then have "add_loop (st b) (sources (st b)) ((st a)\<lparr>header := PyDict (dict_update ha hb)\<rparr>)
        = Inr ?m"
      by (simp add: add_loop_store_keys dict_update_store_keys sources_def)
    then have "add_loop (st1 b) (sources (st1 b)) (st1 a) = Inr ?m"
      by (simp only: a1 b1)
    from obj_add_loop_distinct[OF False this]
    have "obj_add_loop a b (sources (st1 b)) st1 = (Inr a, st1(a := ?m))" .
    moreover have "st1(a := ?m) = st(a := ?m)" by (simp add: st1_def)
    ultimately have "obj_add a b st = (Inr a, st(a := ?m))" by (simp only: o)
    with m hm cm False show ?thesis
      by (intro exI[of _ ?m]) simp
  qed
qed

theorem add_mutates_left_operand_only_witness:
  "well_formed (two_objects 0) \<and> well_formed (two_objects 1)
   \<and> idn (two_objects 0) = idn (two_objects 1)
   \<and> (\<exists>m. obj_add 0 1 two_objects = (Inr 0, two_objects(0 := m))
          \<and> wf_add coll_ch1 coll_ch2 = Inr m
          \<and> (two_objects(0 := m)) 1 = coll_ch2)"
proof -
  have o: "two_objects 0 = coll_ch1" "two_objects 1 = coll_ch2"
    by (simp_all add: two_objects_def)
  have w: "well_formed (two_objects 0)" "well_formed (two_objects 1)"
    unfolding o
    by (simp_all add: well_formed_def coll_ch1_def coll_ch2_def sources_def dict_keys_def)
  have i: "idn (two_objects 0) = idn (two_objects 1)"
    unfolding o by (simp add: coll_ch1_def coll_ch2_def)
  show ?thesis
    using add_mutates_left_operand_only[OF w i] w i o by auto
qed

section \<open>The preamble of the HTTP export\<close>

lemma split_on_not_Nil: "split_on c s \<noteq> []"
  by (induction s) (auto split: list.splits)

lemma nth_item_split_on_0: "nth_item (split_on c s) 0 = Inr (hd (split_on c s))"
  using split_on_not_Nil[of c s] by (cases "split_on c s") (simp_all add: nth_item_def)

lemma is_sentinel_hd: "is_sentinel line \<longleftrightarrow> hd (line_fields line) = ''Label''"
  using split_on_not_Nil[of "CHR '',''" "strip line"]
  by (cases "line_fields line") (simp_all add: is_sentinel_def line_fields_def)

lemma header_entry_if:
  "header_entry line hdr =
     (if length (line_fields line) = 2 \<and> hd (line_fields line) \<noteq> []
      then dict_set (hd (line_fields line)) (HStr (line_fields line ! 1)) hdr else hdr)"
proof (cases "line_fields line")
  case Nil
  then show ?thesis by (simp add: header_entry_def)
next
  case (Cons k r)
  note 1 = this
  show ?thesis
  proof (cases r)
    case Nil
    with 1 show ?thesis by (simp add: header_entry_def)
  next
    case (Cons v r')
    with 1 show ?thesis by (cases r') (simp_all add: header_entry_def)
  qed
qed

lemma preamble_loop_step:
  assumes "readline ds = (line, ds')"
  shows "preamble_loop (Suc n) hdr ds =
     (if is_sentinel line then Inr (hdr, ds')
      else preamble_loop n (header_entry line hdr) ds')"
proof -
  let ?w = "split_on CHR '','' (strip line)"
  have 1: "nth_item ?w 1 = Inr (?w ! 1)" if "length ?w = 2"
    using that by (simp add: nth_item_def)
  show ?thesis
    using 1 by (simp add: assms nth_item_split_on_0 is_sentinel_hd header_entry_if line_fields_def Let_def)
qed

lemma preamble_loop_lines:
  "preamble_loop n hdr ds =
     Inr (fold header_entry (takeWhile (\<lambda>l. \<not> is_sentinel l) (fst (read_lines n ds))) hdr,
          snd (read_lines
                 (min n (Suc (length (takeWhile (\<lambda>l. \<not> is_sentinel l) (fst (read_lines n ds))))))
                 ds))"
proof (induction n arbitrary: hdr ds)
  case 0
  show ?case by simp
next
  case (Suc n)
  obtain line ds' where r: "readline ds = (line, ds')" by (cases "readline ds")
  obtain ls rest where l: "read_lines n ds' = (ls, rest)" by (cases "read_lines n ds'")
  have rl: "fst (read_lines (Suc n) ds) = line # fst (read_lines n ds')"
    by (simp add: r l)
  have sn: "snd (read_lines (Suc m) ds) = snd (read_lines m ds')" for m
    by (cases "read_lines m ds'") (simp add: r)
  show ?case
  proof (cases "is_sentinel line")
    case True
    then show ?thesis
      by (simp add: preamble_loop_step[OF r] rl sn del: preamble_loop.simps read_lines.simps(2))
  next
    case False
    then show ?thesis
      by (simp add: preamble_loop_step[OF r] rl Suc.IH sn del: preamble_loop.simps read_lines.simps)
  qed
qed


text \<open>
  C7, as the code has it: the parser takes at most 21 lines as preamble and stops
  early after a line whose first field is \<^verbatim>\<open>Label\<close>. Every line before that with
  exactly two fields and a non-empty first field becomes a header entry, in the order of
  the lines; every other line (blank, another number of fields, an empty first field) is
  ignored. The line read next gives the column labels, stored under \<^verbatim>\<open>label\<close>, and
  the stream continues after it.
\<close>

theorem parse_response_header_preamble:
  "parse_response_header s =
     Inr (dict_set ''label'' (HList (label_row s)) (fold header_entry (preamble_lines s) []),
          snd (read_lines (Suc (lines_consumed s)) s))
   \<and> length (preamble_lines s) \<le> 21 \<and> lines_consumed s \<le> 21
   \<and> (length (preamble_lines s) < 21 \<longrightarrow>
        is_sentinel (fst (read_lines 21 s) ! length (preamble_lines s))
        \<and> lines_consumed s = Suc (length (preamble_lines s)))"
proof -
  let ?ls = "fst (read_lines 21 s)"
  have len: "length (fst (read_lines n ds)) = n" for n ds
  proof (induction n arbitrary: ds)
    case 0
    show ?case by simp
  next
    case (Suc n)
    obtain l ds' where r: "readline ds = (l, ds')" by (cases "readline ds")
    obtain ls rest where q: "read_lines n ds' = (ls, rest)" by (cases "read_lines n ds'")
    from Suc[of ds'] q show ?case by (simp add: r)
  qed
  have sn: "snd (read_lines (Suc m) ds) =
      snd (readline (snd (read_lines m ds)))" for m ds
  proof (induction m arbitrary: ds)
    case 0
    show ?case by (cases "readline ds") simp
  next
    case (Suc m)
    obtain l ds' where r: "readline ds = (l, ds')" by (cases "readline ds")
    have a: "snd (read_lines (Suc k) ds) = snd (read_lines k ds')" for k
      by (cases "read_lines k ds'") (simp add: r)
    show ?case
      using Suc[of ds'] by (simp only: a)
  qed
  have 1: "length (preamble_lines s) \<le> 21"
    using length_takeWhile_le[of "\<lambda>l. \<not> is_sentinel l" ?ls] len[of 21 s]
    by (simp add: preamble_lines_def)
  have 2: "is_sentinel (?ls ! length (preamble_lines s))" if "length (preamble_lines s) < 21"
    using that nth_length_takeWhile[of "\<lambda>l. \<not> is_sentinel l" ?ls] len[of 21 s]
    by (simp add: preamble_lines_def)
  have 3: "parse_response_header s =
     Inr (dict_set ''label'' (HList (label_row s)) (fold header_entry (preamble_lines s) []),
          snd (read_lines (Suc (lines_consumed s)) s))"
  proof -
    let ?r = "snd (read_lines (lines_consumed s) s)"
    obtain line ds' where r: "readline ?r = (line, ds')" by (cases "readline ?r")
    have p: "preamble_loop 21 [] s = Inr (fold header_entry (preamble_lines s) [], ?r)"
      by (simp only: preamble_loop_lines preamble_lines_def lines_consumed_def)
    have "label_row s = split_on CHR '','' (strip line)"
      by (simp add: label_row_def line_fields_def r)
    moreover have "snd (read_lines (Suc (lines_consumed s)) s) = ds'"
      by (simp only: sn r snd_conv)
    ultimately show ?thesis
      by (simp add: parse_response_header_def p r)
  qed
  from 1 2 3 show ?thesis
    by (auto simp: lines_consumed_def)
qed

theorem parse_response_header_preamble_witness:
  "preamble_lines export_ch1 = [''Model,MDO3024'' @ [LF], [LF]]
   \<and> length (preamble_lines export_ch1) < 21
   \<and> is_sentinel (fst (read_lines 21 export_ch1) ! 2)
   \<and> lines_consumed export_ch1 = 3
   \<and> parse_response_header export_ch1 =
       Inr ([(''Model'', HStr ''MDO3024''), (''label'', HList [''TIME'', ''CH1''])],
            text_of_lines [''0.0,1.5'', ''0.1,2.5''])"
proof -
  have p: "preamble_lines export_ch1 = [''Model,MDO3024'' @ [LF], [LF]]"
    by (simp add: preamble_lines_def export_ch1_def text_of_lines_def is_sentinel_def line_fields_def
        strip_def is_space_def LF_def eval_nat_numeral)
  then have c: "lines_consumed export_ch1 = 3"
    by (simp add: lines_consumed_def)
  have l: "label_row export_ch1 = [''TIME'', ''CH1'']"
    unfolding label_row_def c
    by (simp add: export_ch1_def text_of_lines_def line_fields_def
        strip_def is_space_def LF_def eval_nat_numeral)
  have r: "snd (read_lines (Suc 3) export_ch1) = text_of_lines [''0.0,1.5'', ''0.1,2.5'']"
    by (simp add: export_ch1_def text_of_lines_def LF_def eval_nat_numeral)
  have h: "fold header_entry [''Model,MDO3024'' @ [LF], [LF]] [] = [(''Model'', HStr ''MDO3024'')]"
    by (simp add: header_entry_def line_fields_def strip_def is_space_def LF_def)
  show ?thesis
    using parse_response_header_preamble[of export_ch1] p c l r h
    by (simp add: eval_nat_numeral)
qed

text \<open>
  The claim C7 as stated fails on a line of two fields whose first field is empty: the
  line \<^verbatim>\<open>,5\<close> has exactly two comma-separated fields and comes before the sentinel, and
  the parsed header has no entry for it: it holds the column labels only.
\<close>

theorem two_field_line_counterexample:
  "fst (read_lines 1 export_empty_key) = ['',5'' @ [LF]]
   \<and> length (line_fields ('',5'' @ [LF])) = 2
   \<and> parse_response_header export_empty_key =
       Inr ([(''label'', HList [''TIME'', ''CH1''])], text_of_lines [''0.0,1.5'', ''0.1,2.5''])"
  by (simp add: export_empty_key_def text_of_lines_def parse_response_header_def line_fields_def
      strip_def is_space_def LF_def nth_item_def eval_nat_numeral)

section \<open>Decoding a channel\<close>

lemma ascii_values_those:
  "ascii_values ops y_mult y_offset y_zero entries =
     (case those (map (float_of_str ops) entries) of
        None \<Rightarrow> Inl ValueError
      | Some raws \<Rightarrow> Inr (map (scale ops y_mult y_offset y_zero) raws))"
  by (induction entries) (auto split: option.splits)

lemma decode_channel_ascii:
  assumes "header_float ops hdr ''YMULT'' = Inr y_mult"
    and "header_float ops hdr ''YOFF'' = Inr y_offset"
    and "header_float ops hdr ''YZERO'' = Inr y_zero"
    and "dict_get hdr ''ENCDG'' = Inr (HStr ''ASCII'')"
    and "scope_query sc ''curve?'' st = (read_string, st')"
  shows "decode_channel ops sc hdr st =
     (ascii_values ops y_mult y_offset y_zero (split_on CHR '','' read_string), st')"
  using assms by (simp add: decode_channel_def)

lemma decode_channel_binary:
  assumes "header_float ops hdr ''YMULT'' = Inr y_mult"
    and "header_float ops hdr ''YOFF'' = Inr y_offset"
    and "header_float ops hdr ''YZERO'' = Inr y_zero"
    and "dict_get hdr ''ENCDG'' = Inr (HStr ''BINARY'')"
  shows "decode_channel ops sc hdr st =
     (case format_string_of hdr of
        Inl e \<Rightarrow> (Inl e, st)
      | Inr format_string \<Rightarrow>
          (case dict_get hdr ''BYT_OR'' of
             Inl e \<Rightarrow> (Inl e, st)
           | Inr byt_or \<Rightarrow>
               (case query_binary_values ops sc ''curv?'' format_string (byt_or = HStr ''MSB'') st of
                  (Inl e, st') \<Rightarrow> (Inl e, st')
                | (Inr ret_val, st') \<Rightarrow>
                    (Inr (map (\<lambda>entry. scale ops y_mult y_offset y_zero (to_float ops entry)) ret_val),
                     st'))))"
  using assms unfolding decode_channel_def Let_def by simp

lemma format_string_of_lookup:
  assumes "dict_get hdr ''BYT_NR'' = Inr (HStr byt_nr)"
    and "dict_get hdr ''BN_FMT'' = Inr (HStr bn_fmt)"
  shows "format_string_of hdr =
     (case map_of FORMATTER_LOOKUP byt_nr of
        None \<Rightarrow> Inl (KeyError byt_nr)
      | Some formats \<Rightarrow>
          (case map_of formats bn_fmt of None \<Rightarrow> Inl (KeyError bn_fmt) | Some c \<Rightarrow> Inr c))"
  using assms by (simp add: format_string_of_def dict_get_def split: option.splits)


lemma map_of_FORMATTER_LOOKUP:
  "map_of FORMATTER_LOOKUP byt_nr =
     (if byt_nr = ''1'' then Some [(''RI'', ''b''), (''RP'', ''B'')]
      else if byt_nr = ''2'' then Some [(''RI'', ''h''), (''RP'', ''H'')]
      else if byt_nr = ''4'' then Some [(''RI'', ''i''), (''RP'', ''I''), (''FP'', ''f'')]
      else if byt_nr = ''8'' then Some [(''RI'', ''q''), (''RP'', ''Q''), (''FP'', ''d'')]
      else None)"
  by (simp add: FORMATTER_LOOKUP_def)

lemma lookup_format_Some:
  assumes "lookup_format byt_nr bn_fmt = Some c"
  shows "(byt_nr, bn_fmt, c) \<in> {(''1'', ''RI'', ''b''), (''1'', ''RP'', ''B''),
        (''2'', ''RI'', ''h''), (''2'', ''RP'', ''H''),
        (''4'', ''RI'', ''i''), (''4'', ''RP'', ''I''), (''4'', ''FP'', ''f''),
        (''8'', ''RI'', ''q''), (''8'', ''RP'', ''Q''), (''8'', ''FP'', ''d'')}"
proof -
  consider "byt_nr = ''1''" | "byt_nr = ''2''" | "byt_nr = ''4''" | "byt_nr = ''8''"
    | "byt_nr \<notin> {''1'', ''2'', ''4'', ''8''}" by blast
  then show ?thesis
  proof cases
    case 1
    with assms show ?thesis
      by (simp add: lookup_format_def map_of_FORMATTER_LOOKUP split: if_splits)
  next
    case 2
    with assms show ?thesis
      by (simp add: lookup_format_def map_of_FORMATTER_LOOKUP split: if_splits)
  next
    case 3
    with assms show ?thesis
      by (simp add: lookup_format_def map_of_FORMATTER_LOOKUP split: if_splits)
  next
    case 4
    with assms show ?thesis
      by (simp add: lookup_format_def map_of_FORMATTER_LOOKUP split: if_splits)
  next
    case 5
    with assms show ?thesis
      by (simp add: lookup_format_def map_of_FORMATTER_LOOKUP)
  qed
qed

text \<open>The size and the kind of number that the table gives for a byte width and a
  format code.\<close>

lemma struct_code_values:
  "struct_code ''b'' = Some (1, SignedInt)" "struct_code ''B'' = Some (1, UnsignedInt)"
  "struct_code ''h'' = Some (2, SignedInt)" "struct_code ''H'' = Some (2, UnsignedInt)"
  "struct_code ''i'' = Some (4, SignedInt)" "struct_code ''I'' = Some (4, UnsignedInt)"
  "struct_code ''q'' = Some (8, SignedInt)" "struct_code ''Q'' = Some (8, UnsignedInt)"
  "struct_code ''f'' = Some (4, IEEEFloat)" "struct_code ''d'' = Some (8, IEEEFloat)"
  by (simp_all add: struct_code_def)

lemma lookup_format_struct_code:
  assumes "lookup_format byt_nr bn_fmt = Some c"
  shows "struct_code c = Some (table_width byt_nr, table_kind bn_fmt)"
  using lookup_format_Some[OF assms]
  by (elim insertE emptyE) (simp_all add: struct_code_values table_width_def table_kind_def)

lemma format_string_of_lookup_format:
  assumes "dict_get hdr ''BYT_NR'' = Inr (HStr byt_nr)"
    and "dict_get hdr ''BN_FMT'' = Inr (HStr bn_fmt)"
  shows "format_string_of hdr =
     (case lookup_format byt_nr bn_fmt of
        Some c \<Rightarrow> Inr c
      | None \<Rightarrow> Inl (KeyError (if map_of FORMATTER_LOOKUP byt_nr = None then byt_nr else bn_fmt)))"
  by (simp add: format_string_of_lookup[OF assms] lookup_format_def split: option.splits)

text \<open>
  C1: in ASCII mode every comma-separated token of the answer to \<^verbatim>\<open>curve?\<close> is
  converted to a float, and each of these raw values \<open>raw\<close> becomes
  \<open>(raw - YOFF) * YMULT + YZERO\<close>, in the order of the tokens; a token that is no
  number raises \<^verbatim>\<open>ValueError\<close>. With the header
  \<^verbatim>\<open>{YMULT: "2.0", YOFF: "10", YZERO: "1.0", ENCDG: "ASCII"}\<close> and the answer
  \<^verbatim>\<open>10,20,30\<close> the samples are 1, 21 and 41.
\<close>

theorem ascii_decode_affine_transform:
  "(header_float ops hdr ''YMULT'' = Inr y_mult
      \<and> header_float ops hdr ''YOFF'' = Inr y_offset
      \<and> header_float ops hdr ''YZERO'' = Inr y_zero
      \<and> dict_get hdr ''ENCDG'' = Inr (HStr ''ASCII'')
      \<and> scope_query sc ''curve?'' st = (read_string, st')
    \<longrightarrow> decode_channel ops sc hdr st =
          ((case those (map (float_of_str ops) (split_on CHR '','' read_string)) of
              None \<Rightarrow> Inl ValueError
            | Some raws \<Rightarrow>
                Inr (map (\<lambda>raw. fadd ops (fmul ops (fsub ops raw y_offset) y_mult) y_zero) raws)),
           st'))
   \<and> scope_query lab_bench ''curve?'' ''CH1'' = (''10,20,30'', ''CH1'')
   \<and> decode_channel exact_ops lab_bench ascii_header ''CH1'' =
        (Inr [Finite 1, Finite 21, Finite 41], ''CH1'')"
proof -
  have general: "decode_channel ops sc hdr st =
          ((case those (map (float_of_str ops) (split_on CHR '','' read_string)) of
              None \<Rightarrow> Inl ValueError
            | Some raws \<Rightarrow>
                Inr (map (\<lambda>raw. fadd ops (fmul ops (fsub ops raw y_offset) y_mult) y_zero) raws)),
           st')"
    if "header_float ops hdr ''YMULT'' = Inr y_mult"
      "header_float ops hdr ''YOFF'' = Inr y_offset"
      "header_float ops hdr ''YZERO'' = Inr y_zero"
      "dict_get hdr ''ENCDG'' = Inr (HStr ''ASCII'')"
      "scope_query sc ''curve?'' st = (read_string, st')"
    by (simp add: decode_channel_ascii[OF that] ascii_values_those scale_def split: option.splits)
  have query: "scope_query lab_bench ''curve?'' ''CH1'' = (''10,20,30'', ''CH1'')"
    by code_simp
  have scenario: "decode_channel exact_ops lab_bench ascii_header ''CH1'' =
        (Inr [Finite 1, Finite 21, Finite 41], ''CH1'')"
    by code_simp
  from general query scenario show ?thesis by blast
qed

theorem ascii_decode_affine_transform_witness:
  "header_float exact_ops ascii_header ''YMULT'' = Inr (Finite 2)
   \<and> header_float exact_ops ascii_header ''YOFF'' = Inr (Finite 10)
   \<and> header_float exact_ops ascii_header ''YZERO'' = Inr (Finite 1)
   \<and> dict_get ascii_header ''ENCDG'' = Inr (HStr ''ASCII'')
   \<and> scope_query lab_bench ''curve?'' ''CH1'' = (''10,20,30'', ''CH1'')
   \<and> those (map (float_of_str exact_ops) (split_on CHR '','' ''10,20,30'')) =
        Some [Finite 10, Finite 20, Finite 30]
   \<and> decode_channel exact_ops lab_bench ascii_header ''CH1'' =
        (Inr [fadd exact_ops (fmul exact_ops (fsub exact_ops (Finite 10) (Finite 10)) (Finite 2)) (Finite 1),
              fadd exact_ops (fmul exact_ops (fsub exact_ops (Finite 20) (Finite 10)) (Finite 2)) (Finite 1),
              fadd exact_ops (fmul exact_ops (fsub exact_ops (Finite 30) (Finite 10)) (Finite 2)) (Finite 1)],
         ''CH1'')"
proof -
  have h: "header_float exact_ops ascii_header ''YMULT'' = Inr (Finite 2)"
      "header_float exact_ops ascii_header ''YOFF'' = Inr (Finite 10)"
      "header_float exact_ops ascii_header ''YZERO'' = Inr (Finite 1)"
      "dict_get ascii_header ''ENCDG'' = Inr (HStr ''ASCII'')"
      "scope_query lab_bench ''curve?'' ''CH1'' = (''10,20,30'', ''CH1'')"
    by code_simp+
  have t: "those (map (float_of_str exact_ops) (split_on CHR '','' ''10,20,30'')) =
        Some [Finite 10, Finite 20, Finite 30]"
    by code_simp
  show ?thesis
    using ascii_decode_affine_transform[of exact_ops ascii_header "Finite 2" "Finite 10" "Finite 1"
        lab_bench "''CH1''" "''10,20,30''" "''CH1''"] h t
    by simp
qed

lemma query_binary_values_block:
  assumes "scope_read_block sc message st = (block, st')"
    and "struct_code datatype = Some (width, kind)"
  shows "query_binary_values ops sc message datatype is_big_endian st =
     (Inr (map (\<lambda>i. elem_value ops width kind
                     (be_nat (if is_big_endian then take width (drop (i * width) block)
                              else rev (take width (drop (i * width) block)))))
             [0 ..< length block div width]), st')"
  using assms by (simp add: query_binary_values_def unpack_block_def unpack_elem_def)

lemma decode_channel_binary_values:
  assumes f: "header_float ops hdr ''YMULT'' = Inr y_mult"
      "header_float ops hdr ''YOFF'' = Inr y_offset"
      "header_float ops hdr ''YZERO'' = Inr y_zero"
      "dict_get hdr ''ENCDG'' = Inr (HStr ''BINARY'')"
    and fs: "format_string_of hdr = Inr format_string"
    and o: "dict_get hdr ''BYT_OR'' = Inr byt_or"
    and q: "query_binary_values ops sc ''curv?'' format_string (byt_or = HStr ''MSB'') st = (Inr vals, st')"
  shows "decode_channel ops sc hdr st =
     (Inr (map (\<lambda>entry. fadd ops (fmul ops (fsub ops (to_float ops entry) y_offset) y_mult) y_zero)
             vals), st')"
  by (simp add: decode_channel_binary[OF f] fs o q scale_def)

lemma binary_scenario_premises:
  "header_float exact_ops binary_header ''YMULT'' = Inr (Finite 1)"
  "header_float exact_ops binary_header ''YOFF'' = Inr (Finite 0)"
  "header_float exact_ops binary_header ''YZERO'' = Inr (Finite 0)"
  "dict_get binary_header ''ENCDG'' = Inr (HStr ''BINARY'')"
  "dict_get binary_header ''BYT_NR'' = Inr (HStr ''2'')"
  "dict_get binary_header ''BN_FMT'' = Inr (HStr ''RI'')"
  "lookup_format ''2'' ''RI'' = Some ''h''"
  "dict_get binary_header ''BYT_OR'' = Inr (HStr ''MSB'')"
  "scope_read_block lab_bench ''curv?'' ''CH2'' = ([0x00, 0x01, 0x00, 0x02], ''CH2'')"
  by code_simp+

lemma binary_lsb_premises:
  "header_float exact_ops binary_header_lsb ''YMULT'' = Inr (Finite 1)"
  "header_float exact_ops binary_header_lsb ''YOFF'' = Inr (Finite 0)"
  "header_float exact_ops binary_header_lsb ''YZERO'' = Inr (Finite 0)"
  "dict_get binary_header_lsb ''ENCDG'' = Inr (HStr ''BINARY'')"
  "dict_get binary_header_lsb ''BYT_NR'' = Inr (HStr ''2'')"
  "dict_get binary_header_lsb ''BN_FMT'' = Inr (HStr ''RI'')"
  "dict_get binary_header_lsb ''BYT_OR'' = Inr (HStr ''LSB'')"
  by code_simp+

lemma upt_2: "[0 ..< 2] = [0, Suc 0]"
  by (simp add: upt_rec)

lemma binary_scenario:
  "decode_channel exact_ops lab_bench binary_header ''CH2'' = (Inr [Finite 1, Finite 2], ''CH2'')"
proof -
  note p = binary_scenario_premises
  have s: "struct_code ''h'' = Some (2, SignedInt)"
    by (rule struct_code_values)
  have fs: "format_string_of binary_header = Inr ''h''"
    by (simp add: format_string_of_lookup_format[OF p(5,6)] p(7))
  have q: "query_binary_values exact_ops lab_bench ''curv?'' ''h'' (HStr ''MSB'' = HStr ''MSB'') ''CH2'' =
      (Inr [PyInt 1, PyInt 2], ''CH2'')"
    unfolding query_binary_values_block[OF p(9) s]
    by (simp add: upt_2 elem_value_def be_nat_def)
  show ?thesis
    unfolding decode_channel_binary_values[OF p(1-4) fs p(8) q]
    by (simp add: to_float_def exact_ops_def xf_lift_def)
qed

text \<open>
  C2: in BINARY mode the format passed to the unpacking is the entry of
  \<^verbatim>\<open>FORMATTER_LOOKUP\<close> for the header's byte width and format code, which fixes the
  size and the kind of the elements; each element is read from its bytes most significant
  byte first exactly when \<^verbatim>\<open>BYT_OR\<close> is \<^verbatim>\<open>MSB\<close>, otherwise from the reversed
  bytes, and is then scaled. With the header
  \<^verbatim>\<open>{BYT_NR: "2", BN_FMT: "RI", BYT_OR: "MSB", YMULT: "1", YOFF: "0", YZERO: "0"}\<close> in
  BINARY mode the bytes 00 01 00 02 give the samples 1 and 2.
\<close>

theorem binary_decode_table_and_byte_order:
  "(header_float ops hdr ''YMULT'' = Inr y_mult
      \<and> header_float ops hdr ''YOFF'' = Inr y_offset
      \<and> header_float ops hdr ''YZERO'' = Inr y_zero
      \<and> dict_get hdr ''ENCDG'' = Inr (HStr ''BINARY'')
      \<and> dict_get hdr ''BYT_NR'' = Inr (HStr byt_nr)
      \<and> dict_get hdr ''BN_FMT'' = Inr (HStr bn_fmt)
      \<and> lookup_format byt_nr bn_fmt = Some format_string
      \<and> dict_get hdr ''BYT_OR'' = Inr byt_or
      \<and> scope_read_block sc ''curv?'' st = (block, st')
    \<longrightarrow> struct_code format_string = Some (table_width byt_nr, table_kind bn_fmt)
        \<and> decode_channel ops sc hdr st =
              (Inr (map (\<lambda>i. fadd ops (fmul ops (fsub ops
                           (to_float ops (elem_value ops (table_width byt_nr) (table_kind bn_fmt)
                              (be_nat (if byt_or = HStr ''MSB''
                                       then take (table_width byt_nr) (drop (i * table_width byt_nr) block)
                                       else rev (take (table_width byt_nr)
                                                   (drop (i * table_width byt_nr) block))))))
                           y_offset) y_mult) y_zero)
                      [0 ..< length block div table_width byt_nr]), st'))
   \<and> scope_read_block lab_bench ''curv?'' ''CH2'' = ([0x00, 0x01, 0x00, 0x02], ''CH2'')
   \<and> decode_channel exact_ops lab_bench binary_header ''CH2'' = (Inr [Finite 1, Finite 2], ''CH2'')"
proof (intro conjI impI)
  assume a: "header_float ops hdr ''YMULT'' = Inr y_mult
      \<and> header_float ops hdr ''YOFF'' = Inr y_offset
      \<and> header_float ops hdr ''YZERO'' = Inr y_zero
      \<and> dict_get hdr ''ENCDG'' = Inr (HStr ''BINARY'')
      \<and> dict_get hdr ''BYT_NR'' = Inr (HStr byt_nr)
      \<and> dict_get hdr ''BN_FMT'' = Inr (HStr bn_fmt)
      \<and> lookup_format byt_nr bn_fmt = Some format_string
      \<and> dict_get hdr ''BYT_OR'' = Inr byt_or
      \<and> scope_read_block sc ''curv?'' st = (block, st')"
  then have f: "header_float ops hdr ''YMULT'' = Inr y_mult"
      "header_float ops hdr ''YOFF'' = Inr y_offset"
      "header_float ops hdr ''YZERO'' = Inr y_zero"
      "dict_get hdr ''ENCDG'' = Inr (HStr ''BINARY'')"
    and k: "dict_get hdr ''BYT_NR'' = Inr (HStr byt_nr)"
      "dict_get hdr ''BN_FMT'' = Inr (HStr bn_fmt)"
    and l: "lookup_format byt_nr bn_fmt = Some format_string"
    and o: "dict_get hdr ''BYT_OR'' = Inr byt_or"
    and b: "scope_read_block sc ''curv?'' st = (block, st')"
    by simp_all
  show s: "struct_code format_string = Some (table_width byt_nr, table_kind bn_fmt)"
    by (rule lookup_format_struct_code[OF l])
  have fs: "format_string_of hdr = Inr format_string"
    by (simp add: format_string_of_lookup_format[OF k] l)
  have q: "query_binary_values ops sc ''curv?'' format_string (byt_or = HStr ''MSB'') st =
     (Inr (map (\<lambda>i. elem_value ops (table_width byt_nr) (table_kind bn_fmt)
                     (be_nat (if byt_or = HStr ''MSB''
                              then take (table_width byt_nr) (drop (i * table_width byt_nr) block)
                              else rev (take (table_width byt_nr)
                                          (drop (i * table_width byt_nr) block)))))
             [0 ..< length block div table_width byt_nr]), st')"
    by (rule query_binary_values_block[OF b s])
  show "decode_channel ops sc hdr st =
              (Inr (map (\<lambda>i. fadd ops (fmul ops (fsub ops
                           (to_float ops (elem_value ops (table_width byt_nr) (table_kind bn_fmt)
                              (be_nat (if byt_or = HStr ''MSB''
                                       then take (table_width byt_nr) (drop (i * table_width byt_nr) block)
                                       else rev (take (table_width byt_nr)
                                                   (drop (i * table_width byt_nr) block))))))
                           y_offset) y_mult) y_zero)
                      [0 ..< length block div table_width byt_nr]), st')"
    unfolding decode_channel_binary_values[OF f fs o q]
    by (simp only: map_map comp_def)
next
  show "scope_read_block lab_bench ''curv?'' ''CH2'' = ([0x00, 0x01, 0x00, 0x02], ''CH2'')"
    by code_simp
next
  show "decode_channel exact_ops lab_bench binary_header ''CH2'' =
      (Inr [Finite 1, Finite 2], ''CH2'')"
    by (rule binary_scenario)
qed

theorem binary_decode_table_and_byte_order_witness:
  "header_float exact_ops binary_header_lsb ''YMULT'' = Inr (Finite 1)
   \<and> header_float exact_ops binary_header_lsb ''YOFF'' = Inr (Finite 0)
   \<and> header_float exact_ops binary_header_lsb ''YZERO'' = Inr (Finite 0)
   \<and> dict_get binary_header_lsb ''ENCDG'' = Inr (HStr ''BINARY'')
   \<and> dict_get binary_header_lsb ''BYT_NR'' = Inr (HStr ''2'')
   \<and> dict_get binary_header_lsb ''BN_FMT'' = Inr (HStr ''RI'')
   \<and> lookup_format ''2'' ''RI'' = Some ''h''
   \<and> dict_get binary_header_lsb ''BYT_OR'' = Inr (HStr ''LSB'')
   \<and> scope_read_block lab_bench ''curv?'' ''CH2'' = ([0x00, 0x01, 0x00, 0x02], ''CH2'')
   \<and> struct_code ''h'' = Some (2, SignedInt)
   \<and> decode_channel exact_ops lab_bench binary_header_lsb ''CH2'' =
        (Inr [Finite 256, Finite 512], ''CH2'')
   \<and> decode_channel exact_ops lab_bench binary_header ''CH2'' = (Inr [Finite 1, Finite 2], ''CH2'')"
proof -
  note p = binary_lsb_premises
  note r = binary_scenario_premises(7,9)
  have a: "header_float exact_ops binary_header_lsb ''YMULT'' = Inr (Finite 1)
      \<and> header_float exact_ops binary_header_lsb ''YOFF'' = Inr (Finite 0)
      \<and> header_float exact_ops binary_header_lsb ''YZERO'' = Inr (Finite 0)
      \<and> dict_get binary_header_lsb ''ENCDG'' = Inr (HStr ''BINARY'')
      \<and> dict_get binary_header_lsb ''BYT_NR'' = Inr (HStr ''2'')
      \<and> dict_get binary_header_lsb ''BN_FMT'' = Inr (HStr ''RI'')
      \<and> lookup_format ''2'' ''RI'' = Some ''h''
      \<and> dict_get binary_header_lsb ''BYT_OR'' = Inr (HStr ''LSB'')
      \<and> scope_read_block lab_bench ''curv?'' ''CH2'' = ([0x00, 0x01, 0x00, 0x02], ''CH2'')"
    by (simp only: p r simp_thms)
  note t = binary_decode_table_and_byte_order[of exact_ops binary_header_lsb "Finite 1" "Finite 0"
        "Finite 0" "''2''" "''RI''" "''h''" "HStr ''LSB''" lab_bench "''CH2''"
        "[0x00, 0x01, 0x00, 0x02]" "''CH2''"]
  have w: "table_width ''2'' = 2" "table_kind ''RI'' = SignedInt"
    by (simp_all add: table_width_def table_kind_def)
  from t[THEN conjunct1, rule_format, OF a]
  have s: "struct_code ''h'' = Some (2, SignedInt)"
    and d: "decode_channel exact_ops lab_bench binary_header_lsb ''CH2'' =
        (Inr [Finite 256, Finite 512], ''CH2'')"
    by (simp_all add: w upt_2 elem_value_def be_nat_def to_float_def exact_ops_def xf_lift_def)
  from t have m: "decode_channel exact_ops lab_bench binary_header ''CH2'' =
      (Inr [Finite 1, Finite 2], ''CH2'')"
    by (rule conjunct2[THEN conjunct2])
  from a s d m show ?thesis by (simp only: simp_thms)
qed

text \<open>
  C8: when the header's byte width and format code name no entry of
  \<^verbatim>\<open>FORMATTER_LOOKUP\<close>, the binary decode raises the \<^verbatim>\<open>KeyError\<close> of the failed
  table lookup (the error that the specification calls UnsupportedFormatError): for the
  width if the table has no such width, else for the format code. No samples result and
  the instrument is not asked for the curve. The table has exactly the widths 1, 2, 4
  and 8, the codes \<^verbatim>\<open>RI\<close> and \<^verbatim>\<open>RP\<close> for each, and \<^verbatim>\<open>FP\<close> for 4 and 8.
\<close>

theorem unsupported_format_raises:
  "(header_float ops hdr ''YMULT'' = Inr y_mult
      \<and> header_float ops hdr ''YOFF'' = Inr y_offset
      \<and> header_float ops hdr ''YZERO'' = Inr y_zero
      \<and> dict_get hdr ''ENCDG'' = Inr (HStr ''BINARY'')
      \<and> dict_get hdr ''BYT_NR'' = Inr (HStr byt_nr)
      \<and> dict_get hdr ''BN_FMT'' = Inr (HStr bn_fmt)
      \<and> lookup_format byt_nr bn_fmt = None
    \<longrightarrow> decode_channel ops sc hdr st =
          (Inl (KeyError (if map_of FORMATTER_LOOKUP byt_nr = None then byt_nr else bn_fmt)), st))
   \<and> (lookup_format byt_nr bn_fmt = None \<longleftrightarrow>
        \<not> (byt_nr \<in> {''1'', ''2'', ''4'', ''8''} \<and> bn_fmt \<in> {''RI'', ''RP''}
           \<or> byt_nr \<in> {''4'', ''8''} \<and> bn_fmt = ''FP''))
   \<and> (map_of FORMATTER_LOOKUP byt_nr = None \<longleftrightarrow> byt_nr \<notin> {''1'', ''2'', ''4'', ''8''})"
proof -
  have general: "decode_channel ops sc hdr st =
          (Inl (KeyError (if map_of FORMATTER_LOOKUP byt_nr = None then byt_nr else bn_fmt)), st)"
    if f: "header_float ops hdr ''YMULT'' = Inr y_mult"
      "header_float ops hdr ''YOFF'' = Inr y_offset"
      "header_float ops hdr ''YZERO'' = Inr y_zero"
      "dict_get hdr ''ENCDG'' = Inr (HStr ''BINARY'')"
    and k: "dict_get hdr ''BYT_NR'' = Inr (HStr byt_nr)"
      "dict_get hdr ''BN_FMT'' = Inr (HStr bn_fmt)"
    and l: "lookup_format byt_nr bn_fmt = None"
    by (simp add: decode_channel_binary[OF f] format_string_of_lookup_format[OF k] l)
  have widths: "map_of FORMATTER_LOOKUP byt_nr = None \<longleftrightarrow> byt_nr \<notin> {''1'', ''2'', ''4'', ''8''}"
    by (simp add: map_of_FORMATTER_LOOKUP)
  have table: "lookup_format byt_nr bn_fmt = None \<longleftrightarrow>
        \<not> (byt_nr \<in> {''1'', ''2'', ''4'', ''8''} \<and> bn_fmt \<in> {''RI'', ''RP''}
           \<or> byt_nr \<in> {''4'', ''8''} \<and> bn_fmt = ''FP'')"
  proof -
    consider "byt_nr = ''1''" | "byt_nr = ''2''" | "byt_nr = ''4''" | "byt_nr = ''8''"
      | "byt_nr \<notin> {''1'', ''2'', ''4'', ''8''}" by blast
    then show ?thesis
    proof cases
      case 1
      then show ?thesis by (simp add: lookup_format_def map_of_FORMATTER_LOOKUP)
    next
      case 2
      then show ?thesis by (simp add: lookup_format_def map_of_FORMATTER_LOOKUP)
    next
      case 3
      then show ?thesis by (simp add: lookup_format_def map_of_FORMATTER_LOOKUP)
    next
      case 4
      then show ?thesis by (simp add: lookup_format_def map_of_FORMATTER_LOOKUP)
    next
      case 5
      then show ?thesis by (simp add: lookup_format_def map_of_FORMATTER_LOOKUP)
    qed
  qed
  from general widths table show ?thesis by blast
qed

theorem unsupported_format_raises_witness:
  "header_float exact_ops header_1_FP ''YMULT'' = Inr (Finite 1)
   \<and> header_float exact_ops header_1_FP ''YOFF'' = Inr (Finite 0)
   \<and> header_float exact_ops header_1_FP ''YZERO'' = Inr (Finite 0)
   \<and> dict_get header_1_FP ''ENCDG'' = Inr (HStr ''BINARY'')
   \<and> dict_get header_1_FP ''BYT_NR'' = Inr (HStr ''1'')
   \<and> dict_get header_1_FP ''BN_FMT'' = Inr (HStr ''FP'')
   \<and> lookup_format ''1'' ''FP'' = None
   \<and> decode_channel exact_ops lab_bench header_1_FP ''CH2'' = (Inl (KeyError ''FP''), ''CH2'')
   \<and> lookup_format ''3'' ''RI'' = None
   \<and> decode_channel exact_ops lab_bench header_3_RI ''CH2'' = (Inl (KeyError ''3''), ''CH2'')"
proof -
  have p: "header_float exact_ops header_1_FP ''YMULT'' = Inr (Finite 1)"
    "header_float exact_ops header_1_FP ''YOFF'' = Inr (Finite 0)"
    "header_float exact_ops header_1_FP ''YZERO'' = Inr (Finite 0)"
    "dict_get header_1_FP ''ENCDG'' = Inr (HStr ''BINARY'')"
    "dict_get header_1_FP ''BYT_NR'' = Inr (HStr ''1'')"
    "dict_get header_1_FP ''BN_FMT'' = Inr (HStr ''FP'')"
    "lookup_format ''1'' ''FP'' = None"
    by code_simp+
  have q: "header_float exact_ops header_3_RI ''YMULT'' = Inr (Finite 1)"
    "header_float exact_ops header_3_RI ''YOFF'' = Inr (Finite 0)"
    "header_float exact_ops header_3_RI ''YZERO'' = Inr (Finite 0)"
    "dict_get header_3_RI ''ENCDG'' = Inr (HStr ''BINARY'')"
    "dict_get header_3_RI ''BYT_NR'' = Inr (HStr ''3'')"
    "dict_get header_3_RI ''BN_FMT'' = Inr (HStr ''RI'')"
    "lookup_format ''3'' ''RI'' = None"
    by code_simp+
  have m: "map_of FORMATTER_LOOKUP ''1'' \<noteq> None" "map_of FORMATTER_LOOKUP ''3'' = None"
    by code_simp+
  show ?thesis
    using unsupported_format_raises[of exact_ops header_1_FP "Finite 1" "Finite 0" "Finite 0"
        "''1''" "''FP''" lab_bench "''CH2''"]
      unsupported_format_raises[of exact_ops header_3_RI "Finite 1" "Finite 0" "Finite 0"
        "''3''" "''RI''" lab_bench "''CH2''"] p q m
    by simp
qed

section \<open>The acquisition over the instrument link\<close>

lemma visa_source_Yield_name_aux:
  "(case visa_source ops sc lower_bound upper_bound source st of
      (Yield name ret_val hdr, st') \<Rightarrow> name = source
    | (Return ret_val hdr, st') \<Rightarrow> True
    | (Raise e, st') \<Rightarrow> True)"
  by (simp add: visa_source_def Let_def split: prod.split sum.split)

lemma visa_source_Yield_name:
  assumes "visa_source ops sc lower_bound upper_bound source st = (Yield name ret_val hdr, st')"
  shows "name = source"
  using visa_source_Yield_name_aux[where ops = ops and sc = sc and lower_bound = lower_bound
      and upper_bound = upper_bound and source = source and st = st] assms
  by simp

lemma get_data_visa_gen_exhausted:
  "get_data_visa_gen ops sc lower_bound upper_bound channels st = ((items, Exhausted), st')
   \<Longrightarrow> map fst items = channels"
proof (induction channels arbitrary: st items)
  case Nil
  then show ?case by simp
next
  case (Cons source srcs)
  obtain step st1 where v: "visa_source ops sc lower_bound upper_bound source st = (step, st1)"
    by (cases "visa_source ops sc lower_bound upper_bound source st")
  show ?case
  proof (cases step)
    case (Yield name ret_val hdr)
    obtain items' ending st2 where
      g: "get_data_visa_gen ops sc lower_bound upper_bound srcs st1 = ((items', ending), st2)"
      by (metis surj_pair)
    from Cons.prems v Yield g
    have e: "items = (name, ret_val, hdr) # items'" "ending = Exhausted" "st2 = st'"
      by simp_all
    from v Yield have "name = source" by (simp add: visa_source_Yield_name)
    moreover from g e have "get_data_visa_gen ops sc lower_bound upper_bound srcs st1 =
        ((items', Exhausted), st')" by simp
    then have "map fst items' = srcs" by (rule Cons.IH)
    ultimately show ?thesis using e by simp
  next
    case (Return ret_val hdr)
    with Cons.prems v show ?thesis by simp
  next
    case (Raise e)
    with Cons.prems v show ?thesis by simp
  qed
qed


lemma store_item_fields:
  "idn (store_item (n, d, h) w) = idn w"
  "header (store_item (n, d, h) w) = PyDict h"
  "channel_map (store_item (n, d, h) w) =
     (if n = ''header'' then channel_map w else (channel_map w)(n \<mapsto> PyList d))"
  by (simp_all add: store_item_def wf_setitem_def channel_map_def map_of_dict_set)

lemma fold_store_item_idn: "idn (fold store_item items w) = idn w"
proof (induction items arbitrary: w)
  case Nil
  show ?case by simp
next
  case (Cons x xs)
  obtain n d h where x: "x = (n, d, h)" by (cases x)
  show ?case by (simp add: Cons.IH x store_item_fields(1))
qed

lemma fold_store_item_header:
  "items \<noteq> [] \<Longrightarrow> header (fold store_item items w) = PyDict (snd (snd (last items)))"
proof (induction items rule: rev_induct)
  case Nil
  then show ?case by simp
next
  case (snoc x xs)
  obtain n d h where x: "x = (n, d, h)" by (cases x)
  show ?case by (simp add: x store_item_fields(2))
qed

lemma fold_store_item_channel:
  "name \<noteq> ''header'' \<Longrightarrow>
   channel_map (fold store_item items w) name =
     (case map_of (rev (map (\<lambda>(n, d, h). (n, PyList d)) items)) name of
        None \<Rightarrow> channel_map w name
      | Some v \<Rightarrow> Some v)"
proof (induction items rule: rev_induct)
  case Nil
  then show ?case by simp
next
  case (snoc x xs)
  obtain n d h where x: "x = (n, d, h)" by (cases x)
  from snoc show ?case by (simp add: x store_item_fields(3))
qed

lemma map_of_rev_items_Some:
  assumes "name \<in> fst ` set items"
  shows "\<exists>v. map_of (rev (map (\<lambda>(n, d, h). (n, PyList d)) items)) name = Some v"
proof -
  have 1: "map fst (map (\<lambda>(n, d, h). (n, PyList d)) items) = map fst items"
    by (induction items) (simp_all add: split_beta)
  have "fst ` set (rev (map (\<lambda>(n, d, h). (n, PyList d)) items)) =
      set (map fst (map (\<lambda>(n, d, h). (n, PyList d)) items))"
    by (simp only: set_rev set_map)
  also have "\<dots> = fst ` set items"
    by (simp only: 1 set_map)
  finally have "name \<in> fst ` set (rev (map (\<lambda>(n, d, h). (n, PyList d)) items))"
    using assms by (simp only:)
  then have "name \<in> dom (map_of (rev (map (\<lambda>(n, d, h). (n, PyList d)) items)))"
    by (simp only: dom_map_of_conv_image_fst)
  then show ?thesis by (rule domD)
qed

text \<open>
  C9, as the code has it: when the generator runs through a non-empty channel list to
  its end, yielding one triple per channel, the returned collection carries the identity
  string, its header is the header of the last channel of the list, and every channel
  whose name is not \<^verbatim>\<open>header\<close> is among its sources with the samples of the last
  triple of that name. A name \<^verbatim>\<open>header\<close> is the key under which
  \<^verbatim>\<open>__setitem__\<close> stores the header, so its samples are not kept.
\<close>

theorem visa_header_of_last_channel:
  assumes "channels \<noteq> []"
    and "scope_query sc ''*IDN?'' st = (answer, st1)"
    and "get_data_visa_gen ops sc None None channels st1 = ((items, Exhausted), st2)"
  shows "\<exists>wfc. get_data_visa ops sc channels st = (Inr wfc, st2)
           \<and> idn wfc = answer
           \<and> map fst items = channels
           \<and> header wfc = PyDict (snd (snd (last items)))
           \<and> (\<forall>name \<in> set channels. name \<noteq> ''header'' \<longrightarrow>
                 name \<in> set (sources wfc)
                 \<and> channel_map wfc name =
                     map_of (rev (map (\<lambda>(n, d, h). (n, PyList d)) items)) name)"
proof -
  let ?w = "fold store_item items (wf_init\<lparr>idn := answer\<rparr>)"
  have r: "get_data_visa ops sc channels st = (Inr ?w, st2)"
    by (simp add: get_data_visa_def Let_def assms)
  have n: "map fst items = channels"
    by (rule get_data_visa_gen_exhausted[OF assms(3)])
  have ne: "items \<noteq> []"
  proof
    assume "items = []"
    with n have "channels = []" by simp
    with assms(1) show False by simp
  qed
  have c: "name \<in> set (sources ?w) \<and>
      channel_map ?w name = map_of (rev (map (\<lambda>(n, d, h). (n, PyList d)) items)) name"
    if m: "name \<in> set channels" and h: "name \<noteq> ''header''" for name
  proof -
    from m have "name \<in> set (map fst items)" by (simp only: n)
    then have "name \<in> fst ` set items" by (simp only: set_map)
    from map_of_rev_items_Some[OF this]
    obtain v where v: "map_of (rev (map (\<lambda>(n, d, h). (n, PyList d)) items)) name = Some v"
      by (rule exE)
    have cm: "channel_map ?w name = Some v"
      by (simp only: fold_store_item_channel[OF h] v option.case)
    then have "map_of (data ?w) name = Some v" by (simp only: channel_map_def)
    then have "name \<in> dom (map_of (data ?w))" by (rule domI)
    then have "name \<in> set (sources ?w)"
      by (simp only: dom_map_of_conv_image_fst sources_def dict_keys_def set_map)
    with cm v show ?thesis by (simp only: simp_thms)
  qed
  show ?thesis
  proof (intro exI[of _ ?w] conjI ballI impI)
    show "get_data_visa ops sc channels st = (Inr ?w, st2)" by (rule r)
  next
    show "idn ?w = answer" by (simp add: fold_store_item_idn)
  next
    show "map fst items = channels" by (rule n)
  next
    show "header ?w = PyDict (snd (snd (last items)))"
      by (rule fold_store_item_header[OF ne])
  next
    fix name assume "name \<in> set channels" "name \<noteq> ''header''"
    from c[OF this] show "name \<in> set (sources ?w)" by (rule conjunct1)
  next
    fix name assume "name \<in> set channels" "name \<noteq> ''header''"
    from c[OF this]
    show "channel_map ?w name = map_of (rev (map (\<lambda>(n, d, h). (n, PyList d)) items)) name"
      by (rule conjunct2)
  qed
qed
theorem visa_header_of_last_channel_witness:
  "[''CH1'', ''CH4''] \<noteq> []
   \<and> scope_query lab_bench ''*IDN?'' [] = (''TEKTRONIX,MDO3024'', [])
   \<and> get_data_visa_gen exact_ops lab_bench None None [''CH1'', ''CH4''] [] =
       (([(''CH1'', [Finite 1, Finite 21, Finite 41], ascii_header),
          (''CH4'', [Finite 5, Finite 6], unscaled_header)], Exhausted), ''CH4'')
   \<and> (\<exists>wfc. get_data_visa exact_ops lab_bench [''CH1'', ''CH4''] [] = (Inr wfc, ''CH4'')
          \<and> idn wfc = ''TEKTRONIX,MDO3024''
          \<and> header wfc = PyDict unscaled_header
          \<and> ''CH1'' \<in> set (sources wfc) \<and> ''CH4'' \<in> set (sources wfc)
          \<and> channel_map wfc ''CH1'' = Some (PyList [Finite 1, Finite 21, Finite 41])
          \<and> channel_map wfc ''CH4'' = Some (PyList [Finite 5, Finite 6]))"
proof -
  have n: "[''CH1'', ''CH4''] \<noteq> ([] :: string list)" by simp
  have q: "scope_query lab_bench ''*IDN?'' [] = (''TEKTRONIX,MDO3024'', [])"
    by code_simp
  have g: "get_data_visa_gen exact_ops lab_bench None None [''CH1'', ''CH4''] [] =
       (([(''CH1'', [Finite 1, Finite 21, Finite 41], ascii_header),
          (''CH4'', [Finite 5, Finite 6], unscaled_header)], Exhausted), ''CH4'')"
    by code_simp
  from visa_header_of_last_channel[OF n q g]
  obtain wfc where w: "get_data_visa exact_ops lab_bench [''CH1'', ''CH4''] [] = (Inr wfc, ''CH4'')"
      "idn wfc = ''TEKTRONIX,MDO3024''"
      "header wfc = PyDict (snd (snd (last [(''CH1'', [Finite 1, Finite 21, Finite 41], ascii_header),
          (''CH4'', [Finite 5, Finite 6], unscaled_header)])))"
      "\<forall>name \<in> set [''CH1'', ''CH4'']. name \<noteq> ''header'' \<longrightarrow>
                 name \<in> set (sources wfc)
                 \<and> channel_map wfc name =
                     map_of (rev (map (\<lambda>(n, d, h). (n, PyList d))
                       [(''CH1'', [Finite 1, Finite 21, Finite 41], ascii_header),
                        (''CH4'', [Finite 5, Finite 6], unscaled_header)])) name"
    by blast
  from w(3) have h: "header wfc = PyDict unscaled_header" by simp
  from w(4) have c: "''CH1'' \<in> set (sources wfc)" "''CH4'' \<in> set (sources wfc)"
      "channel_map wfc ''CH1'' = Some (PyList [Finite 1, Finite 21, Finite 41])"
      "channel_map wfc ''CH4'' = Some (PyList [Finite 5, Finite 6])"
    by simp_all
  from n q g w(1,2) h c show ?thesis by blast
qed

text \<open>
  The claim C9 as stated fails for a channel named \<^verbatim>\<open>header\<close>: the generator
  processes it and yields its samples, and the returned collection has no entry for it.
\<close>

theorem header_channel_counterexample:
  "get_data_visa_gen exact_ops lab_bench None None [''header''] [] =
       (([(''header'', [Finite 1, Finite 21, Finite 41], ascii_header)], Exhausted), ''header'')
   \<and> get_data_visa exact_ops lab_bench [''header''] [] =
       (Inr \<lparr>idn = ''TEKTRONIX,MDO3024'', data = [], header = PyDict ascii_header\<rparr>, ''header'')"
proof -
  have "get_data_visa_gen exact_ops lab_bench None None [''header''] [] =
       (([(''header'', [Finite 1, Finite 21, Finite 41], ascii_header)], Exhausted), ''header'')"
    by code_simp
  moreover have "get_data_visa exact_ops lab_bench [''header''] [] =
       (Inr \<lparr>idn = ''TEKTRONIX,MDO3024'', data = [], header = PyDict ascii_header\<rparr>, ''header'')"
    by code_simp
  ultimately show ?thesis by (rule conjI)
qed

text \<open>
  C3 on the code: the instrument reports \<^verbatim>\<open>CH3\<close> as off, and the pass through the
  loop of the generator ends in \<^verbatim>\<open>return [], header\<close>. That ends the generator: the
  collection that \<^verbatim>\<open>get_data_visa\<close> returns for the channels \<^verbatim>\<open>CH3\<close> and
  \<^verbatim>\<open>CH1\<close> has no entry for \<^verbatim>\<open>CH3\<close>, an empty header, and no entry for
  \<^verbatim>\<open>CH1\<close>, which is acquired when it is requested alone.
\<close>

theorem disabled_channel_ends_acquisition:
  "visa_source exact_ops lab_bench None None ''CH3'' [] = (Return [] ascii_header, ''CH3'')
   \<and> get_data_visa exact_ops lab_bench [''CH3'', ''CH1''] [] =
       (Inr \<lparr>idn = ''TEKTRONIX,MDO3024'', data = [], header = PyDict []\<rparr>, ''CH3'')
   \<and> get_data_visa exact_ops lab_bench [''CH1''] [] =
       (Inr \<lparr>idn = ''TEKTRONIX,MDO3024'',
             data = [(''CH1'', PyList [Finite 1, Finite 21, Finite 41])],
             header = PyDict ascii_header\<rparr>, ''CH1'')"
proof -
  have "visa_source exact_ops lab_bench None None ''CH3'' [] = (Return [] ascii_header, ''CH3'')"
    by code_simp
  moreover have "get_data_visa exact_ops lab_bench [''CH3'', ''CH1''] [] =
       (Inr \<lparr>idn = ''TEKTRONIX,MDO3024'', data = [], header = PyDict []\<rparr>, ''CH3'')"
    by code_simp
  moreover have "get_data_visa exact_ops lab_bench [''CH1''] [] =
       (Inr \<lparr>idn = ''TEKTRONIX,MDO3024'',
             data = [(''CH1'', PyList [Finite 1, Finite 21, Finite 41])],
             header = PyDict ascii_header\<rparr>, ''CH1'')"
    by code_simp
  ultimately show ?thesis by (intro conjI)
qed

end
